theory Spec2Isabelle
  imports Main "HOL-Library.Sublist" "HOL-Library.Multiset"
begin

section \<open>Parsed response fragments\<close>

text \<open>
  A response is parsed into a detached fragment: a forest of nodes. An element carries its
  tag name, its attributes in declaration order (the DOM keeps attribute names unique) and
  its children.
\<close>

datatype node =
    TextNode string
  | Element (tagName: string) (attributes: "(string \<times> string) list") (childNodes: "node list")

text \<open>\<^verbatim>\<open>element.getAttribute(name)\<close>: the value, or \<^verbatim>\<open>null\<close> (here \<open>None\<close>).\<close>

definition getAttribute :: "node \<Rightarrow> string \<Rightarrow> string option" where
  "getAttribute element name = map_of (attributes element) name"

definition hasAttribute :: "node \<Rightarrow> string \<Rightarrow> bool" where
  "hasAttribute element name = (getAttribute element name \<noteq> None)"

text \<open>
  \<^verbatim>\<open>api.getAttributeValue(elt, name)\<close> of the host library is
  \<^verbatim>\<open>getRawAttribute(elt, name) || getRawAttribute(elt, 'data-' + name)\<close>. The result is only
  ever tested for truthiness by the extension; \<open>js_or\<close> is JavaScript's \<^verbatim>\<open>||\<close> on values that
  are \<^verbatim>\<open>null\<close> or a string, and \<open>truthy_attr\<close> the truthiness test on them.
\<close>

definition getRawAttribute :: "node \<Rightarrow> string \<Rightarrow> string option" where
  "getRawAttribute elt name = getAttribute elt name"

fun js_or :: "string option \<Rightarrow> string option \<Rightarrow> string option" where
  "js_or (Some v) b = (if v \<noteq> [] then Some v else b)"
| "js_or None b = b"

fun truthy_attr :: "string option \<Rightarrow> bool" where
  "truthy_attr (Some v) = (v \<noteq> [])"
| "truthy_attr None = False"

definition getAttributeValue :: "node \<Rightarrow> string \<Rightarrow> string option" where
  "getAttributeValue elt qualifiedName =
     js_or (getRawAttribute elt qualifiedName) (getRawAttribute elt (''data-'' @ qualifiedName))"

section \<open>Command grammar and validation\<close>

definition VALID_COMMAND_ATTRIBUTES :: "string list" where
  "VALID_COMMAND_ATTRIBUTES =
     [''target'', ''swap'', ''select'', ''redirect'', ''refresh'', ''location'', ''push-url'',
      ''replace-url'', ''trigger'', ''trigger-after-swap'', ''trigger-after-settle'']"

definition valid_name :: "string \<Rightarrow> bool" where
  "valid_name name = (name \<in> set VALID_COMMAND_ATTRIBUTES)"

text \<open>
  The entries pushed on the \<^verbatim>\<open>errors\<close> array of \<^verbatim>\<open>validateCommandElement\<close>, and the errors
  the extension creates or meets. The message text of an \<^verbatim>\<open>Error\<close> is rendered from these
  values; the model keeps the values.
\<close>

datatype validation_item = InvalidAttribute string | RequiresTarget

text \<open>A parsed JSON value. An object holds its properties in enumeration order; the
  extension tests a number only for truthiness, and the model keeps whole numbers.\<close>

datatype json =
    JNull
  | JBool bool
  | JNum int
  | JStr string
  | JArr "json list"
  | JObj "(string \<times> json) list"

datatype js_error =
    NoCommandAttributes node
  | ValidationErrors node "validation_item list"
  | TargetNotFound string
  | SelectorSyntaxError string
  | NotAFunction json
  | CannotCreateProperty json
  | NullProperty
  | JsonSyntaxError string
  | HostError string

text \<open>
  \<^verbatim>\<open>validateCommandElement\<close>: an element without any command attribute throws at once;
  otherwise one entry per unknown attribute (in attribute order) and one for swap or select
  without target are collected, and thrown together when there is any.
\<close>

definition validateCommandElement :: "node \<Rightarrow> js_error + unit" where
  "validateCommandElement element =
     (let hasCommandAttribute = list_ex (\<lambda>attr. valid_name (fst attr)) (attributes element) in
      if \<not> hasCommandAttribute then Inl (NoCommandAttributes element)
      else
        let unknown = map (\<lambda>attr. InvalidAttribute (fst attr))
                        (filter (\<lambda>attr. \<not> valid_name (fst attr)) (attributes element));
            hasSwapOrSelect = (hasAttribute element ''swap'' \<or> hasAttribute element ''select'');
            hasTarget = hasAttribute element ''target'';
            errors = unknown @ (if hasSwapOrSelect \<and> \<not> hasTarget then [RequiresTarget] else [])
        in if length errors > 0 then Inl (ValidationErrors element errors) else Inr ())"


section \<open>The live document, the host library and observable effects\<close>

text \<open>
  Elements of the live document are handles; \<open>DocumentBody\<close> is \<^verbatim>\<open>document.body\<close>. A selector
  lookup (\<^verbatim>\<open>querySelector\<close>) finds an element, finds nothing, or throws on a selector that is
  not valid CSS.
\<close>

datatype live_elt = DocumentBody | LiveElement nat

datatype lookup = Found live_elt | NoMatch | InvalidSelector

record swap_spec =
  swapStyle :: string
  swapDelay :: nat
  settleDelay :: nat
  transition :: "bool option"

text \<open>The \<^verbatim>\<open>beforeSwapDetails\<close> object, which listeners of \<^verbatim>\<open>htmx:beforeSwap\<close> may mutate.\<close>

record swap_details =
  elt :: live_elt
  target :: live_elt
  swapSpec :: swap_spec
  serverResponse :: string
  shouldSwap :: bool
  fromServerCommand :: bool

text \<open>The arguments of one \<^verbatim>\<open>swapAsync\<close> call: target, content, swap specification, the
  \<^verbatim>\<open>select\<close> option and the context element (event info and context of the swap options).\<close>

record swap_request =
  swapTarget :: live_elt
  swapContent :: string
  swapSpecification :: swap_spec
  swapSelect :: "string option"
  swapContext :: live_elt

datatype detail =
    NoDetail
  | BeforeCommandDetail node live_elt
  | CommandDetail node
  | BeforeSwapDetail swap_details
  | EventInfo live_elt
  | JsonDetail json
  | TargetErrorDetail js_error string
  | CommandErrorDetail js_error node

datatype warning = NestedCommandsDiscarded live_elt | TriggerTargetNotFound json

text \<open>
  What the extension does to the outside world, in the order it does it. A path is a
  JavaScript value: \<open>None\<close> is \<^verbatim>\<open>undefined\<close>.
\<close>

datatype effect =
    TriggerEvent live_elt string detail
  | TriggerErrorEvent live_elt string detail
  | ConsoleWarn warning
  | DomSwap swap_request
  | DomSettle swap_request
  | SetLocationHref string
  | LocationReload
  | SaveCurrentPageToHistory
  | PushUrlIntoHistory "json option"
  | ReplaceUrlInHistory string
  | AjaxGet "json option" json

text \<open>A continuation registered on a promise that nobody awaits: it runs when the host
  settles that promise, outside the command pipeline.\<close>

datatype deferred = ThenPushUrlIntoHistory "json option"

record pstate =
  events :: "effect list"
  pending :: "deferred list"

definition emit :: "effect \<Rightarrow> pstate \<Rightarrow> pstate" where
  "emit e s = s\<lparr>events := events s @ [e]\<rparr>"

definition register :: "deferred \<Rightarrow> pstate \<Rightarrow> pstate" where
  "register d s = s\<lparr>pending := pending s @ [d]\<rparr>"

text \<open>
  The browser and the host library, as far as the extension consults them. Every answer may
  depend on all effects so far. \<open>dispatch\<close> is the result of \<^verbatim>\<open>api.triggerEvent\<close> (false when
  a listener cancelled the event); \<open>beforeSwapListeners\<close> is the details object as the
  listeners of \<^verbatim>\<open>htmx:beforeSwap\<close> leave it; \<open>jsonParse\<close> is \<^verbatim>\<open>JSON.parse\<close> (\<open>None\<close> when it
  throws); \<open>doSwap\<close> and \<open>doSettle\<close> tell whether the DOM mutation and the settle tasks of
  \<^verbatim>\<open>swapAsync\<close> throw.
\<close>

record host =
  makeFragment :: "string \<Rightarrow> node list"
  innerHTML :: "node list \<Rightarrow> string"
  dispatch :: "effect list \<Rightarrow> live_elt \<Rightarrow> string \<Rightarrow> detail \<Rightarrow> bool"
  beforeSwapListeners :: "effect list \<Rightarrow> swap_details \<Rightarrow> swap_details"
  querySelector :: "effect list \<Rightarrow> string \<Rightarrow> lookup"
  jsonParse :: "string \<Rightarrow> json option"
  getSwapSpecification :: "effect list \<Rightarrow> live_elt \<Rightarrow> string \<Rightarrow> swap_spec"
  globalViewTransitions :: bool
  startViewTransition :: bool
  doSwap :: "effect list \<Rightarrow> swap_request \<Rightarrow> js_error option"
  doSettle :: "effect list \<Rightarrow> swap_request \<Rightarrow> js_error option"

text \<open>\<^verbatim>\<open>api.triggerEvent(elt, name, detail)\<close>: the event is observed, the result returned.\<close>

definition triggerEvent :: "host \<Rightarrow> live_elt \<Rightarrow> string \<Rightarrow> detail \<Rightarrow> pstate \<Rightarrow> bool \<times> pstate" where
  "triggerEvent env el name d s = (dispatch env (events s) el name d, emit (TriggerEvent el name d) s)"

definition triggerErrorEvent :: "host \<Rightarrow> live_elt \<Rightarrow> string \<Rightarrow> detail \<Rightarrow> pstate \<Rightarrow> pstate" where
  "triggerErrorEvent env el name d s = emit (TriggerErrorEvent el name d) s"

text \<open>
  \<^verbatim>\<open>find(eltOrSelector)\<close>: a string is looked up with \<^verbatim>\<open>document.querySelector\<close>, which
  throws on an invalid selector; on any other value \<^verbatim>\<open>eltOrSelector.querySelector\<close> is not a
  function and the call throws.
\<close>

fun htmx_find :: "host \<Rightarrow> effect list \<Rightarrow> json \<Rightarrow> js_error + live_elt option" where
  "htmx_find env h (JStr selector) =
     (case querySelector env h selector of
        Found el \<Rightarrow> Inr (Some el)
      | NoMatch \<Rightarrow> Inr None
      | InvalidSelector \<Rightarrow> Inl (SelectorSyntaxError selector))"
| "htmx_find env h v = Inl (NotAFunction v)"


section \<open>Trigger dispatch\<close>

text \<open>JavaScript truthiness of a parsed JSON value.\<close>

fun truthy :: "json \<Rightarrow> bool" where
  "truthy JNull = False"
| "truthy (JBool b) = b"
| "truthy (JNum n) = (n \<noteq> 0)"
| "truthy (JStr v) = (v \<noteq> [])"
| "truthy (JArr xs) = True"
| "truthy (JObj props) = True"

definition digit_char :: "nat \<Rightarrow> char" where
  "digit_char n = ''0123456789'' ! n"

fun decimal :: "nat \<Rightarrow> string" where
  "decimal n = (if n < 10 then [digit_char n] else decimal (n div 10) @ [digit_char (n mod 10)])"

declare decimal.simps [simp del]

text \<open>
  The keys a \<^verbatim>\<open>for (const eventName in triggers)\<close> loop visits, each with
  \<^verbatim>\<open>triggers[eventName]\<close>: the properties of an object in enumeration order, the indices of
  an array or of a string, and nothing for \<^verbatim>\<open>null\<close>, a boolean or a number.
\<close>

fun for_in :: "json \<Rightarrow> (string \<times> json) list" where
  "for_in (JObj props) = props"
| "for_in (JArr xs) = zip (map decimal [0..<length xs]) xs"
| "for_in (JStr v) = zip (map decimal [0..<length v]) (map (\<lambda>c. JStr [c]) v)"
| "for_in v = []"

definition delete_property :: "string \<Rightarrow> json \<Rightarrow> json" where
  "delete_property key v =
     (case v of JObj props \<Rightarrow> JObj (filter (\<lambda>p. fst p \<noteq> key) props) | _ \<Rightarrow> v)"

definition get_property :: "json \<Rightarrow> string \<Rightarrow> json option" where
  "get_property v key = (case v of JObj props \<Rightarrow> map_of props key | _ \<Rightarrow> None)"

text \<open>
  One iteration of the loop up to the call of \<^verbatim>\<open>api.triggerEvent\<close>: the dispatch element, the
  detail that is fired and the state, or the error thrown by \<^verbatim>\<open>htmx.find\<close>.
\<close>

definition trigger_target :: "host \<Rightarrow> json \<Rightarrow> pstate \<Rightarrow> js_error + (live_elt \<times> json \<times> pstate)" where
  "trigger_target env d s =
     (case d of
        JObj props \<Rightarrow>
          (case map_of props ''target'' of
             Some t \<Rightarrow>
               if truthy t then
                 (case htmx_find env (events s) t of
                    Inl e \<Rightarrow> Inl e
                  | Inr (Some newTarget) \<Rightarrow> Inr (newTarget, delete_property ''target'' d, s)
                  | Inr None \<Rightarrow>
                      Inr (DocumentBody, delete_property ''target'' d,
                           emit (ConsoleWarn (TriggerTargetNotFound t)) s))
               else Inr (DocumentBody, d, s)
           | None \<Rightarrow> Inr (DocumentBody, d, s))
      | _ \<Rightarrow> Inr (DocumentBody, d, s))"

text \<open>
  The loop. \<^verbatim>\<open>api.triggerEvent(target, eventName, detail)\<close> of the host library, which runs in
  strict mode, replaces a \<^verbatim>\<open>null\<close> detail by a fresh object and then assigns
  \<^verbatim>\<open>detail.elt = elt\<close>: on a boolean, a number or a string this assignment throws a
  \<^verbatim>\<open>TypeError\<close>, and the event is not fired.
\<close>

fun primitive :: "json \<Rightarrow> bool" where
  "primitive (JBool b) = True"
| "primitive (JNum n) = True"
| "primitive (JStr v) = True"
| "primitive v = False"

fun dispatch_triggers :: "host \<Rightarrow> (string \<times> json) list \<Rightarrow> pstate \<Rightarrow> js_error option \<times> pstate" where
  "dispatch_triggers env [] s = (None, s)"
| "dispatch_triggers env ((eventName, d) # rest) s =
     (case trigger_target env d s of
        Inl e \<Rightarrow> (Some e, s)
      | Inr (tgt, d', s') \<Rightarrow>
          if primitive d' then (Some (CannotCreateProperty d'), s')
          else dispatch_triggers env rest
                 (snd (triggerEvent env tgt eventName (JsonDetail d') s')))"

text \<open>
  \<^verbatim>\<open>value.split(',')\<close> and \<^verbatim>\<open>String.prototype.trim\<close>. A character of a \<open>string\<close> is a code
  unit below 256; the white space and line terminators that \<^verbatim>\<open>trim\<close> strips among these are
  space, tab, line feed, vertical tab, form feed, carriage return and the no-break space.
\<close>

fun split_comma :: "string \<Rightarrow> string list" where
  "split_comma [] = [[]]"
| "split_comma (c # cs) =
     (if c = CHR '','' then [] # split_comma cs
      else (case split_comma cs of [] \<Rightarrow> [[c]] | piece # pieces \<Rightarrow> (c # piece) # pieces))"

definition is_space :: "char \<Rightarrow> bool" where
  "is_space c = (c \<in> set [CHR '' '', CHR 0x09, CHR 0x0A, CHR 0x0B, CHR 0x0C, CHR 0x0D, CHR 0xA0])"

definition trim :: "string \<Rightarrow> string" where
  "trim v = rev (dropWhile is_space (rev (dropWhile is_space v)))"

definition fallback_triggers :: "host \<Rightarrow> string \<Rightarrow> pstate \<Rightarrow> pstate" where
  "fallback_triggers env v s =
     foldl (\<lambda>s' eventName. snd (triggerEvent env DocumentBody (trim eventName) NoDetail s'))
       s (split_comma v)"

text \<open>
  \<^verbatim>\<open>handleTriggerAttribute\<close>: the \<^verbatim>\<open>try\<close> block holds both \<^verbatim>\<open>JSON.parse\<close> and the loop, so
  the \<^verbatim>\<open>catch\<close> branch runs when parsing throws and also when the loop throws.
\<close>

definition handleTriggerAttribute :: "host \<Rightarrow> string \<Rightarrow> pstate \<Rightarrow> pstate" where
  "handleTriggerAttribute env v s =
     (case jsonParse env v of
        None \<Rightarrow> fallback_triggers env v s
      | Some triggers \<Rightarrow>
          (case dispatch_triggers env (for_in triggers) s of
             (None, s') \<Rightarrow> s'
           | (Some e, s') \<Rightarrow> fallback_triggers env v s'))"


section \<open>Control flow of an asynchronous function body\<close>

text \<open>
  A step of the body of \<^verbatim>\<open>processCommandFromElement\<close> goes on with a value, leaves the
  function by \<^verbatim>\<open>return\<close>, throws, or waits for a promise that never settles.
\<close>

datatype 'a completion = Normal 'a | Return | Throw js_error | Suspend

type_synonym 'a step = "pstate \<Rightarrow> 'a completion \<times> pstate"

definition and_then :: "'a step \<Rightarrow> ('a \<Rightarrow> 'b step) \<Rightarrow> 'b step" where
  "and_then m f s =
     (case m s of
        (Normal a, s') \<Rightarrow> f a s'
      | (Return, s') \<Rightarrow> (Return, s')
      | (Throw e, s') \<Rightarrow> (Throw e, s')
      | (Suspend, s') \<Rightarrow> (Suspend, s'))"

definition run :: "(pstate \<Rightarrow> pstate) \<Rightarrow> unit step" where
  "run f s = (Normal (), f s)"

section \<open>Navigation\<close>

text \<open>
  \<^verbatim>\<open>handleLocationAttribute\<close>: a value starting with an opening brace is parsed as JSON
  (which may throw), its \<^verbatim>\<open>path\<close> taken out; the page is saved, the request issued, and
  the history push left as a continuation of the request's promise, which is not awaited.
\<close>

definition handleLocationAttribute :: "host \<Rightarrow> string \<Rightarrow> unit step" where
  "handleLocationAttribute env redirectPath s =
     (case (if take 1 redirectPath = ''{'' then
              (case jsonParse env redirectPath of
                 None \<Rightarrow> Inl (JsonSyntaxError redirectPath)
               | Some JNull \<Rightarrow> Inl NullProperty
               | Some redirectSwapSpec \<Rightarrow>
                   Inr (get_property redirectSwapSpec ''path'',
                        delete_property ''path'' redirectSwapSpec))
            else Inr (Some (JStr redirectPath), JObj []))
      of
        Inl e \<Rightarrow> (Throw e, s)
      | Inr (path, redirectSwapSpec) \<Rightarrow>
          (Normal (),
           register (ThenPushUrlIntoHistory path)
             (emit (AjaxGet path redirectSwapSpec) (emit SaveCurrentPageToHistory s))))"

section \<open>Swapping\<close>

text \<open>
  The promise \<^verbatim>\<open>swapAsync\<close> returns. \<^verbatim>\<open>doSwap\<close> ends with \<^verbatim>\<open>resolveSwap(settleDelayPromise)\<close>,
  and a promise that is resolved with a promise adopts it: the promise of the swap is
  fulfilled, with no value, only when the settle promise is, that is after the settle tasks
  have run. It is rejected by the \<^verbatim>\<open>catch\<close> of \<^verbatim>\<open>swapAsync\<close>, and otherwise never settled.
\<close>

datatype swap_promise = Fulfilled | Rejected js_error | NeverSettled

text \<open>
  \<^verbatim>\<open>swapAsync\<close>. \<^verbatim>\<open>doSwap\<close> runs at once inside the \<^verbatim>\<open>try\<close>, or later from a timer
  (\<^verbatim>\<open>swapDelay\<close>) or a view transition; only in the first case does an exception reach the
  \<^verbatim>\<open>catch\<close> that fires \<^verbatim>\<open>htmx:swapError\<close> and rejects. With a settle delay the settle tasks
  run from a timer, whose promise is never fulfilled when they throw; otherwise they run
  within \<^verbatim>\<open>doSwap\<close>.
\<close>

definition swapAsync :: "host \<Rightarrow> swap_request \<Rightarrow> pstate \<Rightarrow> swap_promise \<times> pstate" where
  "swapAsync env req s =
     (let spec = swapSpecification req;
          ctx = swapContext req;
          shouldTransition =
            (case transition spec of Some b \<Rightarrow> b | None \<Rightarrow> globalViewTransitions env);
          (viaTransition, s1) =
            (if shouldTransition then
               (let (r, s') = triggerEvent env ctx ''htmx:beforeTransition'' (EventInfo ctx) s
                in (r \<and> startViewTransition env, s'))
             else (False, s));
          later = (viaTransition \<or> swapDelay spec > 0);
          failed = (\<lambda>e s'. if later then (NeverSettled, s')
                     else (Rejected e, triggerErrorEvent env ctx ''htmx:swapError'' (EventInfo ctx) s'))
      in case doSwap env (events s1) req of
           Some e \<Rightarrow> failed e s1
         | None \<Rightarrow>
             (let s2 = emit (DomSwap req) s1 in
              case doSettle env (events s2) req of
                Some e \<Rightarrow> if settleDelay spec > 0 then (NeverSettled, s2) else failed e s2
              | None \<Rightarrow> (Fulfilled, emit (DomSettle req) s2)))"

record swap_job =
  targetEl :: live_elt
  content :: string

text \<open>Step 1 of \<^verbatim>\<open>processCommandFromElement\<close>: gather swap jobs.\<close>

definition gather_swap_jobs :: "host \<Rightarrow> node \<Rightarrow> live_elt \<Rightarrow> swap_job list step" where
  "gather_swap_jobs env commandElt contextElt s =
     (case getAttributeValue commandElt ''target'' of
        None \<Rightarrow> (Normal [], s)
      | Some commandTargetSelector \<Rightarrow>
          if commandTargetSelector = [] then (Normal [], s)
          else
            (case htmx_find env (events s) (JStr commandTargetSelector) of
               Inl e \<Rightarrow> (Throw e, s)
             | Inr (Some commandTargetEl) \<Rightarrow>
                 (Normal [\<lparr>targetEl = commandTargetEl,
                           content = innerHTML env (childNodes commandElt)\<rparr>], s)
             | Inr None \<Rightarrow>
                 (Normal [],
                  triggerErrorEvent env contextElt ''htmx:targetError''
                    (TargetErrorDetail (TargetNotFound commandTargetSelector)
                       commandTargetSelector) s)))"

text \<open>Step 2: the loop over the swap jobs, collecting the promises of the swaps started.
  \<open>beforeSwapDetails\<close> is the details object as the loop creates it.\<close>

definition beforeSwapDetails :: "live_elt \<Rightarrow> swap_spec \<Rightarrow> swap_job \<Rightarrow> swap_details" where
  "beforeSwapDetails contextElt spec job =
     \<lparr>elt = contextElt, target = targetEl job, swapSpec = spec,
      serverResponse = content job, shouldSwap = True, fromServerCommand = True\<rparr>"

fun process_swap_jobs ::
  "host \<Rightarrow> live_elt \<Rightarrow> swap_spec \<Rightarrow> string option \<Rightarrow> swap_job list \<Rightarrow> pstate \<Rightarrow> swap_promise list \<times> pstate"
where
  "process_swap_jobs env contextElt spec commandSelect [] s = ([], s)"
| "process_swap_jobs env contextElt spec commandSelect (job # jobs) s =
     (let details = beforeSwapDetails contextElt spec job;
          (proceed, s1) =
            triggerEvent env (targetEl job) ''htmx:beforeSwap'' (BeforeSwapDetail details) s;
          mutated = beforeSwapListeners env (events s) details
      in if \<not> proceed then process_swap_jobs env contextElt spec commandSelect jobs s1
         else if shouldSwap mutated then
           (let (p, s2) =
                  swapAsync env
                    \<lparr>swapTarget = target mutated, swapContent = serverResponse mutated,
                     swapSpecification = swapSpec mutated, swapSelect = commandSelect,
                     swapContext = contextElt\<rparr> s1;
                (ps, s3) = process_swap_jobs env contextElt spec commandSelect jobs s2
            in (p # ps, s3))
         else process_swap_jobs env contextElt spec commandSelect jobs s1)"

text \<open>\<^verbatim>\<open>await Promise.all(swapPromises)\<close>: throws when a swap rejected, never resumes when
  one never settles, and otherwise yields the values of the swap promises.\<close>

fun rejection :: "swap_promise list \<Rightarrow> js_error option" where
  "rejection [] = None"
| "rejection (Rejected e # ps) = Some e"
| "rejection (p # ps) = rejection ps"

text \<open>The value a fulfilled swap promise yields.\<close>

datatype resolved_value = Undefined

definition await_swaps :: "swap_promise list \<Rightarrow> resolved_value list step" where
  "await_swaps swapPromises s =
     (case rejection swapPromises of
        Some e \<Rightarrow> (Throw e, s)
      | None \<Rightarrow>
          if list_all (\<lambda>p. p = Fulfilled) swapPromises
          then (Normal (map (\<lambda>p. Undefined) swapPromises), s)
          else (Suspend, s))"

text \<open>\<^verbatim>\<open>await Promise.all(settlePromises.flat())\<close>: what the code calls \<^verbatim>\<open>settlePromises\<close> are
  the values of the swap promises, so this waits for nothing.\<close>

definition await_settles :: "resolved_value list \<Rightarrow> unit step" where
  "await_settles settlePromises s = (Normal (), s)"


section \<open>The command pipeline\<close>

text \<open>\<^verbatim>\<open>if (commandElt.hasAttribute(name)) { ... commandElt.getAttribute(name) ... }\<close>\<close>

definition when_attribute :: "node \<Rightarrow> string \<Rightarrow> (string \<Rightarrow> unit step) \<Rightarrow> unit step" where
  "when_attribute commandElt name f s =
     (case getAttribute commandElt name of Some v \<Rightarrow> f v s | None \<Rightarrow> (Normal (), s))"

text \<open>Step 6 of \<^verbatim>\<open>processCommandFromElement\<close>: immediate triggers and server commands.\<close>

definition immediate_commands :: "host \<Rightarrow> node \<Rightarrow> unit step" where
  "immediate_commands env commandElt =
     and_then (when_attribute commandElt ''trigger'' (\<lambda>v. run (handleTriggerAttribute env v)))
     (\<lambda>_. and_then (when_attribute commandElt ''location'' (handleLocationAttribute env))
     (\<lambda>_. and_then (when_attribute commandElt ''redirect''
                       (\<lambda>v s. (Return, emit (SetLocationHref v) s)))
     (\<lambda>_. and_then (when_attribute commandElt ''refresh''
                       (\<lambda>v s. if v \<noteq> ''false'' then (Return, emit LocationReload s)
                              else (Normal (), s)))
     (\<lambda>_. and_then (when_attribute commandElt ''push-url''
                       (\<lambda>v. run (\<lambda>s. emit (PushUrlIntoHistory (Some (JStr v)))
                                        (emit SaveCurrentPageToHistory s))))
     (\<lambda>_. when_attribute commandElt ''replace-url''
                       (\<lambda>v. run (\<lambda>s. emit (ReplaceUrlInHistory v)
                                        (emit SaveCurrentPageToHistory s))))))))"

text \<open>
  The body of the \<^verbatim>\<open>try\<close> block in three parts. \<open>prepare\<close> runs from the cancelable
  \<^verbatim>\<open>htmx:beforeServerCommand\<close> event to the first \<^verbatim>\<open>await\<close> and yields the settle promises
  of the swaps that were started.
\<close>

definition before_command :: "host \<Rightarrow> node \<Rightarrow> live_elt \<Rightarrow> unit step" where
  "before_command env commandElt contextElt s =
     (let (proceed, s') =
            triggerEvent env contextElt ''htmx:beforeServerCommand''
              (BeforeCommandDetail commandElt contextElt) s
      in if proceed then (Normal (), s') else (Return, s'))"

definition validation :: "node \<Rightarrow> unit step" where
  "validation commandElt s =
     (case validateCommandElement commandElt of
        Inl e \<Rightarrow> (Throw e, s)
      | Inr ok \<Rightarrow> (Normal (), s))"

text \<open>\<^verbatim>\<open>api.getAttributeValue(commandElt, 'swap') || 'outerHTML'\<close>\<close>

definition commandSwapStyle :: "node \<Rightarrow> string" where
  "commandSwapStyle commandElt =
     (case getAttributeValue commandElt ''swap'' of
        None \<Rightarrow> ''outerHTML''
      | Some v \<Rightarrow> if v = [] then ''outerHTML'' else v)"

definition start_swaps :: "host \<Rightarrow> node \<Rightarrow> live_elt \<Rightarrow> swap_job list \<Rightarrow> swap_promise list step" where
  "start_swaps env commandElt contextElt swapJobs s =
     (let commandSelect = getAttributeValue commandElt ''select'';
          spec = getSwapSpecification env (events s) contextElt (commandSwapStyle commandElt);
          (swapPromises, s') = process_swap_jobs env contextElt spec commandSelect swapJobs s
      in (Normal swapPromises, s'))"

definition prepare :: "host \<Rightarrow> node \<Rightarrow> live_elt \<Rightarrow> resolved_value list step" where
  "prepare env commandElt contextElt =
     and_then (before_command env commandElt contextElt)
     (\<lambda>_. and_then (validation commandElt)
     (\<lambda>_. and_then (gather_swap_jobs env commandElt contextElt)
     (\<lambda>swapJobs. and_then (start_swaps env commandElt contextElt swapJobs)
     (\<lambda>swapPromises. await_swaps swapPromises))))"

text \<open>Steps 2 to 5: the after-swap notification and triggers, the wait for settling, the
  after-settle triggers.\<close>

definition after_swap_triggers :: "host \<Rightarrow> node \<Rightarrow> live_elt \<Rightarrow> resolved_value list \<Rightarrow> unit step" where
  "after_swap_triggers env commandElt contextElt settlePromises =
     and_then (run (\<lambda>s. snd (triggerEvent env contextElt ''htmx:afterSwap''
                                 (CommandDetail commandElt) s)))
     (\<lambda>_. and_then (when_attribute commandElt ''trigger-after-swap''
                       (\<lambda>v. run (handleTriggerAttribute env v)))
     (\<lambda>_. and_then (await_settles settlePromises)
     (\<lambda>_. when_attribute commandElt ''trigger-after-settle''
                       (\<lambda>v. run (handleTriggerAttribute env v)))))"

text \<open>Step 6 and the closing \<^verbatim>\<open>htmx:afterServerCommand\<close> event.\<close>

definition finish_command :: "host \<Rightarrow> node \<Rightarrow> live_elt \<Rightarrow> unit step" where
  "finish_command env commandElt contextElt =
     and_then (immediate_commands env commandElt)
     (\<lambda>_. run (\<lambda>s. snd (triggerEvent env contextElt ''htmx:afterServerCommand''
                              (CommandDetail commandElt) s)))"

definition until_immediate :: "host \<Rightarrow> node \<Rightarrow> live_elt \<Rightarrow> unit step" where
  "until_immediate env commandElt contextElt =
     and_then (prepare env commandElt contextElt)
       (after_swap_triggers env commandElt contextElt)"

definition command_body :: "host \<Rightarrow> node \<Rightarrow> live_elt \<Rightarrow> unit step" where
  "command_body env commandElt contextElt =
     and_then (until_immediate env commandElt contextElt)
       (\<lambda>_. finish_command env commandElt contextElt)"

text \<open>
  The promise of the asynchronous function: fulfilled when the body ends or returns, and
  also when it throws, after the \<^verbatim>\<open>catch\<close> block has fired \<^verbatim>\<open>htmx:serverCommandError\<close>; left
  unsettled when the body waits forever.
\<close>

datatype promise = Resolved | Unsettled

fun command_promise :: "host \<Rightarrow> node \<Rightarrow> unit completion \<times> pstate \<Rightarrow> promise \<times> pstate" where
  "command_promise env commandElt (Throw error, s) =
     (Resolved,
      triggerErrorEvent env DocumentBody ''htmx:serverCommandError''
        (CommandErrorDetail error commandElt) s)"
| "command_promise env commandElt (Suspend, s) = (Unsettled, s)"
| "command_promise env commandElt (Normal u, s) = (Resolved, s)"
| "command_promise env commandElt (Return, s) = (Resolved, s)"

definition processCommandFromElement :: "host \<Rightarrow> node \<Rightarrow> live_elt \<Rightarrow> pstate \<Rightarrow> promise \<times> pstate" where
  "processCommandFromElement env commandElt contextElt s =
     command_promise env commandElt (command_body env commandElt contextElt s)"

text \<open>The loop \<^verbatim>\<open>for (const el of topLevelCommandElements) await processCommandFromElement(...)\<close>.\<close>

fun process_commands :: "host \<Rightarrow> live_elt \<Rightarrow> node list \<Rightarrow> pstate \<Rightarrow> promise \<times> pstate" where
  "process_commands env contextElt [] s = (Resolved, s)"
| "process_commands env contextElt (el # els) s =
     (case processCommandFromElement env el contextElt s of
        (Resolved, s') \<Rightarrow> process_commands env contextElt els s'
      | (Unsettled, s') \<Rightarrow> (Unsettled, s'))"


section \<open>Splitting a response\<close>

text \<open>
  The elements below a node, in document order, each with its path from the fragment root
  (the child indices on the way down). The path identifies the element: its parent is the
  fragment itself exactly when the path has length one.
\<close>

fun subtree :: "nat list \<Rightarrow> node \<Rightarrow> (nat list \<times> node) list"
  and forest :: "nat list \<Rightarrow> nat \<Rightarrow> node list \<Rightarrow> (nat list \<times> node) list" where
  "subtree p (TextNode t) = []"
| "subtree p (Element t a cs) = (p, Element t a cs) # forest p 0 cs"
| "forest p i [] = []"
| "forest p i (c # cs) = subtree (p @ [i]) c @ forest p (Suc i) cs"

fun is_command :: "node \<Rightarrow> bool" where
  "is_command (Element t a cs) = (t = ''htmx'')"
| "is_command (TextNode t) = False"

text \<open>\<^verbatim>\<open>fragment.querySelectorAll('htmx')\<close>\<close>

definition querySelectorAll_htmx :: "node list \<Rightarrow> (nat list \<times> node) list" where
  "querySelectorAll_htmx fragment = filter (\<lambda>found. is_command (snd found)) (forest [] 0 fragment)"

text \<open>\<^verbatim>\<open>el.parentNode === fragment\<close>\<close>

definition parent_is_fragment :: "nat list \<times> node \<Rightarrow> bool" where
  "parent_is_fragment found = (length (fst found) = 1)"

text \<open>
  \<^verbatim>\<open>allCommandElements.forEach(el => el.remove())\<close> detaches every command element from its
  parent, whatever the depth: what is left of a forest is the forest without its command
  elements, at every level.
\<close>

fun without_commands :: "node \<Rightarrow> node"
  and remove_commands :: "node list \<Rightarrow> node list" where
  "without_commands (TextNode t) = TextNode t"
| "without_commands (Element t a cs) = Element t a (remove_commands cs)"
| "remove_commands [] = []"
| "remove_commands (c # cs) =
     (if is_command c then remove_commands cs else without_commands c # remove_commands cs)"

text \<open>
  The asynchronous loop starts inside \<^verbatim>\<open>transformResponse\<close>: the first command runs up to
  its first \<^verbatim>\<open>await\<close>, which is past the point where it reads its \<^verbatim>\<open>innerHTML\<close>, before the
  command elements are removed; every later command runs after the removal, when the
  commands nested in it have been detached from it. An event detail that refers to the
  command element shows the element as it was when its processing started.
\<close>

fun scheduled_commands :: "node list \<Rightarrow> node list" where
  "scheduled_commands [] = []"
| "scheduled_commands (first # later) = first # map without_commands later"

text \<open>\<^verbatim>\<open>transformResponse\<close>: the text handed back to the host, and the run of the commands.\<close>

definition transformResponse ::
  "host \<Rightarrow> string \<Rightarrow> live_elt \<Rightarrow> pstate \<Rightarrow> string \<times> promise \<times> pstate" where
  "transformResponse env text contextElt s =
     (if text = [] then (text, Resolved, s)
      else
        let fragment = makeFragment env text;
            allCommandElements = querySelectorAll_htmx fragment
        in if allCommandElements = [] then (text, Resolved, s)
           else
             let topLevelCommandElements = filter parent_is_fragment allCommandElements;
                 s1 = (if length allCommandElements > length topLevelCommandElements
                       then emit (ConsoleWarn (NestedCommandsDiscarded contextElt)) s else s)
             in (innerHTML env (remove_commands fragment),
                 process_commands env contextElt
                   (scheduled_commands (map snd topLevelCommandElements)) s1))"

section \<open>The grammar as the specification words it\<close>

text \<open>
  The specification lists three kinds of violation: no attribute of the enumerated set,
  one item per attribute outside the set, and swap or select without target.
  \<open>grammar_violations\<close> follows these words; \<open>diagnosed\<close> reads off an outcome of
  \<^verbatim>\<open>validateCommandElement\<close> the violations that the thrown error names.
\<close>

datatype grammar_violation =
    MissingCommandAttribute
  | UnknownAttribute string
  | SwapOrSelectWithoutTarget

definition grammar_violations :: "node \<Rightarrow> grammar_violation list" where
  "grammar_violations element =
     (if \<exists>name \<in> set (map fst (attributes element)). valid_name name
      then [] else [MissingCommandAttribute])
     @ map UnknownAttribute (filter (\<lambda>name. \<not> valid_name name) (map fst (attributes element)))
     @ (if (hasAttribute element ''swap'' \<or> hasAttribute element ''select'')
           \<and> \<not> hasAttribute element ''target''
        then [SwapOrSelectWithoutTarget] else [])"

fun item_violation :: "validation_item \<Rightarrow> grammar_violation" where
  "item_violation (InvalidAttribute name) = UnknownAttribute name"
| "item_violation RequiresTarget = SwapOrSelectWithoutTarget"

fun diagnosed :: "js_error + unit \<Rightarrow> grammar_violation list" where
  "diagnosed (Inl (NoCommandAttributes element)) = [MissingCommandAttribute]"
| "diagnosed (Inl (ValidationErrors element items)) = map item_violation items"
| "diagnosed other = []"

section \<open>A sample page\<close>

text \<open>
  A host for the worked examples: a page in which \<^verbatim>\<open>#t\<close> is the only element any selector
  finds and \<^verbatim>\<open>[[[\<close> is not a selector, listeners that cancel nothing and leave the swap
  details alone, swaps that succeed at once, \<^verbatim>\<open>JSON.parse\<close> and the fragment parser
  tabulated on the texts the examples use, and a serialiser without escaping.
\<close>

fun render_node :: "node \<Rightarrow> string"
  and render :: "node list \<Rightarrow> string" where
  "render_node (TextNode t) = t"
| "render_node (Element t a cs) =
     ''<'' @ t @ concat (map (\<lambda>attr. '' '' @ fst attr @ ''=\"'' @ snd attr @ ''\"'') a) @ ''>''
     @ render cs @ ''</'' @ t @ ''>''"
| "render [] = []"
| "render (c # cs) = render_node c @ render cs"

definition sample_fragment :: "string \<Rightarrow> node list" where
  "sample_fragment text =
     (if text = ''<p>hi</p>'' then [Element ''p'' [] [TextNode ''hi'']]
      else if text = ''<div><htmx trigger=\"inner\"></htmx></div><htmx trigger=\"outer\"></htmx>''
      then [Element ''div'' [] [Element ''htmx'' [(''trigger'', ''inner'')] []],
            Element ''htmx'' [(''trigger'', ''outer'')] []]
      else [TextNode text])"

definition sample_json :: "string \<Rightarrow> json option" where
  "sample_json v =
     (if v = ''{\"a\":{\"x\":1}}'' then Some (JObj [(''a'', JObj [(''x'', JNum 1)])])
      else if v = ''{\"a\":{\"target\":\"[[[\"}}''
      then Some (JObj [(''a'', JObj [(''target'', JStr ''[[['')])])
      else if v = ''{\"a\":{\"x\":1},\"b\":{\"target\":\"[[[\"}}''
      then Some (JObj [(''a'', JObj [(''x'', JNum 1)]),
                       (''b'', JObj [(''target'', JStr ''[[['')])])
      else if v = ''{\"a\":1}'' then Some (JObj [(''a'', JNum 1)])
      else None)"

definition sample_lookup :: "string \<Rightarrow> lookup" where
  "sample_lookup selector =
     (if selector = ''#t'' then Found (LiveElement 1)
      else if selector = ''[[['' then InvalidSelector
      else NoMatch)"

definition sample_host :: host where
  "sample_host =
     \<lparr>makeFragment = sample_fragment,
      innerHTML = render,
      dispatch = (\<lambda>h el name d. True),
      beforeSwapListeners = (\<lambda>h d. d),
      querySelector = (\<lambda>h selector. sample_lookup selector),
      jsonParse = sample_json,
      getSwapSpecification =
        (\<lambda>h el style. \<lparr>swapStyle = style, swapDelay = 0, settleDelay = 0, transition = None\<rparr>),
      globalViewTransitions = False,
      startViewTransition = False,
      doSwap = (\<lambda>h req. None),
      doSettle = (\<lambda>h req. None)\<rparr>"

definition button :: live_elt where
  "button = LiveElement 0"

definition fresh :: pstate where
  "fresh = \<lparr>events = [], pending = []\<rparr>"

section \<open>Reading the effects of a command\<close>

text \<open>
  The effects a step adds to a state, and the kinds of effect the claims speak about: those
  of a swap (the \<^verbatim>\<open>htmx:beforeSwap\<close> event of the pipeline, the DOM mutation, the settling)
  and the target-error event.
\<close>

definition new_effects :: "pstate \<Rightarrow> pstate \<Rightarrow> effect list" where
  "new_effects s s' = drop (length (events s)) (events s')"

fun is_swap_effect :: "effect \<Rightarrow> bool" where
  "is_swap_effect (DomSwap req) = True"
| "is_swap_effect (DomSettle req) = True"
| "is_swap_effect (TriggerEvent el name (BeforeSwapDetail d)) = True"
| "is_swap_effect e = False"

fun is_target_error :: "effect \<Rightarrow> bool" where
  "is_target_error (TriggerErrorEvent el name d) = (name = ''htmx:targetError'')"
| "is_target_error e = False"

definition command_effect :: "effect \<Rightarrow> bool" where
  "command_effect e = (\<not> is_swap_effect e \<and> \<not> is_target_error e)"

definition trigger_effect :: "effect \<Rightarrow> bool" where
  "trigger_effect e =
     (case e of
        TriggerEvent el name NoDetail \<Rightarrow> True
      | TriggerEvent el name (JsonDetail d) \<Rightarrow> True
      | ConsoleWarn (TriggerTargetNotFound t) \<Rightarrow> True
      | _ \<Rightarrow> False)"

text \<open>\<open>adds P Q s s'\<close>: from \<open>s\<close> to \<open>s'\<close> effects were only appended, all of them in \<open>P\<close>, and
  continuations were only appended, all of them in \<open>Q\<close>.\<close>

definition adds :: "(effect \<Rightarrow> bool) \<Rightarrow> (deferred \<Rightarrow> bool) \<Rightarrow> pstate \<Rightarrow> pstate \<Rightarrow> bool" where
  "adds P Q s s' =
     (\<exists>es ds. events s' = events s @ es \<and> list_all P es
            \<and> pending s' = pending s @ ds \<and> list_all Q ds)"

definition any_effect :: "effect \<Rightarrow> bool" where
  "any_effect e = True"

definition any_deferred :: "deferred \<Rightarrow> bool" where
  "any_deferred d = True"

definition no_deferred :: "deferred \<Rightarrow> bool" where
  "no_deferred d = False"

text \<open>The sample page with a listener that cancels every \<^verbatim>\<open>htmx:beforeSwap\<close> event, with a
  swap specification that delays settling, and with one that delays the swap while the DOM
  mutation throws.\<close>

definition cancelling_host :: host where
  "cancelling_host = sample_host\<lparr>dispatch := (\<lambda>h el name d. name \<noteq> ''htmx:beforeSwap'')\<rparr>"

definition settle_delay_host :: host where
  "settle_delay_host =
     sample_host
       \<lparr>getSwapSpecification :=
          (\<lambda>h el style. \<lparr>swapStyle = style, swapDelay = 0, settleDelay = 20, transition = None\<rparr>)\<rparr>"

definition failing_delayed_host :: host where
  "failing_delayed_host =
     sample_host
       \<lparr>getSwapSpecification :=
          (\<lambda>h el style. \<lparr>swapStyle = style, swapDelay = 100, settleDelay = 0, transition = None\<rparr>),
        doSwap := (\<lambda>h req. Some (HostError ''doSwap''))\<rparr>"

text \<open>The events fired through \<^verbatim>\<open>api.triggerEvent\<close> among some effects: element, name, detail.\<close>

fun fired_events :: "effect list \<Rightarrow> (live_elt \<times> string \<times> detail) list" where
  "fired_events [] = []"
| "fired_events (TriggerEvent el name d # es) = (el, name, d) # fired_events es"
| "fired_events (e # es) = fired_events es"

section \<open>Validation\<close>

lemma has_command_attribute_iff:
  "list_ex (\<lambda>attr. valid_name (fst attr)) attrs \<longleftrightarrow> (\<exists>name \<in> set (map fst attrs). valid_name name)"
  by (induction attrs) auto

lemma unknown_items:
  "map item_violation
     (map (\<lambda>attr. InvalidAttribute (fst attr)) (filter (\<lambda>attr. \<not> valid_name (fst attr)) attrs))
   = map UnknownAttribute (filter (\<lambda>name. \<not> valid_name name) (map fst attrs))"
  by (induction attrs) auto

text \<open>
  C5, as stated: every violation of the grammar, the missing command attribute included, is
  in the one error that validation throws. This fails for an element whose only attribute is
  unknown: the error names the missing command attribute and not the unknown attribute.
\<close>

theorem validation_fails_fast_on_missing_command_attribute:
  "diagnosed (validateCommandElement (Element ''htmx'' [(''foo'', ''1'')] [TextNode ''x'']))
   \<noteq> grammar_violations (Element ''htmx'' [(''foo'', ''1'')] [TextNode ''x''])"
  by (simp add: validateCommandElement_def grammar_violations_def valid_name_def
        VALID_COMMAND_ATTRIBUTES_def)

text \<open>
  C5, amended: validation throws one error. When the element has a command attribute, the
  error lists every unknown attribute and the swap-or-select-without-target combination
  together; when it has none, validation throws the missing-command-attribute error at once
  and alone. Validation passes exactly when the grammar has no violation.
\<close>

theorem validation_collects_after_command_attribute_check:
  "(list_ex (\<lambda>attr. valid_name (fst attr)) (attributes element) \<longrightarrow>
      diagnosed (validateCommandElement element) = grammar_violations element)
   \<and> (\<not> list_ex (\<lambda>attr. valid_name (fst attr)) (attributes element) \<longrightarrow>
      validateCommandElement element = Inl (NoCommandAttributes element))
   \<and> (validateCommandElement element = Inr () \<longleftrightarrow> grammar_violations element = [])"
proof (cases "list_ex (\<lambda>attr. valid_name (fst attr)) (attributes element)")
  case True
  define unknown where
    "unknown = map (\<lambda>attr. InvalidAttribute (fst attr))
                 (filter (\<lambda>attr. \<not> valid_name (fst attr)) (attributes element))"
  define combination where
    "combination = (if (hasAttribute element ''swap'' \<or> hasAttribute element ''select'')
                       \<and> \<not> hasAttribute element ''target'' then [RequiresTarget] else [])"
  have v: "validateCommandElement element =
             (if unknown @ combination = [] then Inr ()
              else Inl (ValidationErrors element (unknown @ combination)))"
    using True unfolding validateCommandElement_def unknown_def combination_def Let_def
    by simp
  have some: "(\<exists>name \<in> set (map fst (attributes element)). valid_name name) = True"
    using True by (simp only: has_command_attribute_iff)
  have u: "map item_violation unknown =
             map UnknownAttribute
               (filter (\<lambda>name. \<not> valid_name name) (map fst (attributes element)))"
    unfolding unknown_def by (rule unknown_items)
  have c: "map item_violation combination =
             (if (hasAttribute element ''swap'' \<or> hasAttribute element ''select'')
                 \<and> \<not> hasAttribute element ''target'' then [SwapOrSelectWithoutTarget] else [])"
    unfolding combination_def by simp
  have g: "grammar_violations element = map item_violation (unknown @ combination)"
    unfolding grammar_violations_def some map_append u c by simp
  have d: "diagnosed (validateCommandElement element) = map item_violation (unknown @ combination)"
    unfolding v by simp
  have "validateCommandElement element = Inr () \<longleftrightarrow> unknown @ combination = []"
    unfolding v by simp
  with g d True show ?thesis by simp
next
  case False
  have none: "(\<exists>name \<in> set (map fst (attributes element)). valid_name name) = False"
    using False by (simp only: has_command_attribute_iff)
  have "validateCommandElement element = Inl (NoCommandAttributes element)"
    using False unfolding validateCommandElement_def Let_def by simp
  moreover have "grammar_violations element \<noteq> []"
    unfolding grammar_violations_def none by simp
  ultimately show ?thesis using False by simp
qed

theorem validation_collects_witness:
  "diagnosed (validateCommandElement
      (Element ''htmx'' [(''swap'', ''innerHTML''), (''foo'', ''1''), (''bar'', ''2'')] []))
     = [UnknownAttribute ''foo'', UnknownAttribute ''bar'', SwapOrSelectWithoutTarget]
   \<and> validateCommandElement (Element ''htmx'' [(''foo'', ''1'')] [])
     = Inl (NoCommandAttributes (Element ''htmx'' [(''foo'', ''1'')] []))
   \<and> validateCommandElement (Element ''htmx'' [(''trigger'', ''done'')] []) = Inr ()"
  using validation_collects_after_command_attribute_check
          [of "Element ''htmx'' [(''swap'', ''innerHTML''), (''foo'', ''1''), (''bar'', ''2'')] []"]
        validation_collects_after_command_attribute_check
          [of "Element ''htmx'' [(''foo'', ''1'')] []"]
        validation_collects_after_command_attribute_check
          [of "Element ''htmx'' [(''trigger'', ''done'')] []"]
  by (simp add: grammar_violations_def valid_name_def VALID_COMMAND_ATTRIBUTES_def
        hasAttribute_def getAttribute_def)

section \<open>Responses without commands\<close>

text \<open>
  C9: a response text that is empty, or whose fragment holds no command element, is handed
  back as it is; no command is processed, so no effect is added and nothing is left pending.
\<close>

theorem response_without_commands_unchanged:
  "text = [] \<or> querySelectorAll_htmx (makeFragment env text) = [] \<Longrightarrow>
   transformResponse env text contextElt s = (text, Resolved, s)"
  by (auto simp: transformResponse_def Let_def)

theorem response_without_commands_witness:
  "transformResponse sample_host [] button fresh = ([], Resolved, fresh)
   \<and> querySelectorAll_htmx (makeFragment sample_host ''<p>hi</p>'') = []
   \<and> transformResponse sample_host ''<p>hi</p>'' button fresh = (''<p>hi</p>'', Resolved, fresh)"
proof -
  have h: "querySelectorAll_htmx (makeFragment sample_host ''<p>hi</p>'') = []"
    by (simp add: querySelectorAll_htmx_def sample_host_def sample_fragment_def)
  show ?thesis
    using response_without_commands_unchanged [of "[]" sample_host button fresh]
      response_without_commands_unchanged [of "''<p>hi</p>''" sample_host button fresh] h
    by simp
qed

section \<open>Steps only append\<close>

lemma adds_refl: "adds P Q s s"
  by (simp add: adds_def)

lemma adds_trans: "adds P Q s s' \<Longrightarrow> adds P Q s' s'' \<Longrightarrow> adds P Q s s''"
  by (auto simp: adds_def)

lemma adds_emit: "P e \<Longrightarrow> adds P Q s (emit e s)"
  by (simp add: adds_def emit_def)

lemma adds_emit_after: "adds P Q s s' \<Longrightarrow> P e \<Longrightarrow> adds P Q s (emit e s')"
  by (auto simp: adds_def emit_def)

lemma adds_register_after: "adds P Q s s' \<Longrightarrow> Q d \<Longrightarrow> adds P Q s (register d s')"
  by (auto simp: adds_def register_def)

lemma adds_weaken:
  "adds P Q s s' \<Longrightarrow> (\<And>e. P e \<Longrightarrow> P' e) \<Longrightarrow> (\<And>d. Q d \<Longrightarrow> Q' d) \<Longrightarrow> adds P' Q' s s'"
  unfolding adds_def list_all_iff by blast

lemma adds_any: "adds P Q s s' \<Longrightarrow> adds any_effect any_deferred s s'"
  by (erule adds_weaken) (simp_all add: any_effect_def any_deferred_def)

lemma adds_prefix: "adds P Q s s' \<Longrightarrow> prefix (events s) (events s') \<and> prefix (pending s) (pending s')"
  by (auto simp: adds_def)

lemma adds_new_effects: "adds P Q s s' \<Longrightarrow> list_all P (new_effects s s')"
  by (auto simp: adds_def new_effects_def)

lemma adds_no_deferred: "adds P no_deferred s s' \<Longrightarrow> pending s' = pending s"
  by (cases "pending s'" rule: rev_cases) (auto simp: adds_def no_deferred_def list_all_iff)

lemma adds_triggerEvent:
  "P (TriggerEvent el name d) \<Longrightarrow> adds P Q s (snd (triggerEvent env el name d s))"
  by (simp add: triggerEvent_def adds_emit)

lemma adds_and_then:
  assumes "\<And>s. adds P Q s (snd (m s))" and "\<And>a s. adds P Q s (snd (f a s))"
  shows "adds P Q s (snd (and_then m f s))"
proof (cases "m s")
  case (Pair c s')
  have 1: "adds P Q s s'"
    using assms(1) [of s] Pair by simp
  show ?thesis
  proof (cases c)
    case (Normal a)
    then show ?thesis
      using Pair adds_trans [OF 1 assms(2) [of s' a]] by (simp add: and_then_def)
  qed (use Pair 1 in \<open>simp_all add: and_then_def\<close>)
qed

lemma adds_run: "(\<And>s. adds P Q s (f s)) \<Longrightarrow> adds P Q s (snd (run f s))"
  by (simp add: run_def)

lemma adds_when_attribute:
  "(\<And>v s. adds P Q s (snd (f v s))) \<Longrightarrow> adds P Q s (snd (when_attribute commandElt name f s))"
  by (simp add: when_attribute_def adds_refl split: option.splits)

lemma adds_when_absent:
  "getAttribute commandElt name = None \<Longrightarrow> adds P Q s (snd (when_attribute commandElt name f s))"
  by (simp add: when_attribute_def adds_refl)

subsection \<open>Trigger dispatch\<close>

lemma adds_trigger_target:
  "trigger_target env d s = Inr (tgt, d', s') \<Longrightarrow> adds trigger_effect Q s s'"
  by (auto simp: trigger_target_def trigger_effect_def adds_refl intro!: adds_emit
      split: json.splits option.splits if_splits sum.splits)

lemma adds_dispatch_triggers:
  "adds trigger_effect Q s (snd (dispatch_triggers env kvs s))"
proof (induction kvs arbitrary: s)
  case Nil
  then show ?case by (simp add: adds_refl)
next
  case (Cons kv kvs)
  obtain k d where kv: "kv = (k, d)"
    by (cases kv)
  show ?case
  proof (cases "trigger_target env d s")
    case (Inl e)
    then show ?thesis
      using kv by (simp add: adds_refl)
  next
    case (Inr r)
    obtain tgt d' s' where r: "r = (tgt, d', s')"
      by (cases r)
    have 1: "adds trigger_effect Q s s'"
      using Inr r adds_trigger_target by blast
    have 2: "adds trigger_effect Q s' (snd (triggerEvent env tgt k (JsonDetail d') s'))"
      by (rule adds_triggerEvent) (simp add: trigger_effect_def)
    have "adds trigger_effect Q s
            (snd (dispatch_triggers env kvs (snd (triggerEvent env tgt k (JsonDetail d') s'))))"
      using adds_trans [OF adds_trans [OF 1 2] Cons.IH] .
    then show ?thesis
      using kv Inr r 1 by simp
  qed
qed

lemma adds_fallback_triggers: "adds trigger_effect Q s (fallback_triggers env v s)"
proof -
  have "adds trigger_effect Q s
          (foldl (\<lambda>s' eventName. snd (triggerEvent env DocumentBody (trim eventName) NoDetail s'))
             s names)" for names
  proof (induction names arbitrary: s)
    case Nil
    then show ?case by (simp add: adds_refl)
  next
    case (Cons n names)
    have "adds trigger_effect Q s (snd (triggerEvent env DocumentBody (trim n) NoDetail s))"
      by (rule adds_triggerEvent) (simp add: trigger_effect_def)
    then show ?case
      using Cons.IH by (auto intro: adds_trans)
  qed
  then show ?thesis
    by (simp add: fallback_triggers_def)
qed

lemma adds_handleTriggerAttribute: "adds trigger_effect Q s (handleTriggerAttribute env v s)"
proof (cases "jsonParse env v")
  case None
  then show ?thesis
    by (simp add: handleTriggerAttribute_def adds_fallback_triggers)
next
  case (Some triggers)
  obtain r s' where d: "dispatch_triggers env (for_in triggers) s = (r, s')"
    by (cases "dispatch_triggers env (for_in triggers) s")
  have 1: "adds trigger_effect Q s s'"
    using adds_dispatch_triggers [of Q s env "for_in triggers"] d by simp
  show ?thesis
    using Some d 1 adds_trans [OF 1 adds_fallback_triggers [of Q s' env v]]
    by (auto simp: handleTriggerAttribute_def split: option.splits)
qed

lemma trigger_effect_command: "trigger_effect e \<Longrightarrow> command_effect e"
  by (cases e) (auto simp: trigger_effect_def command_effect_def split: detail.splits)

lemma quiet_handleTriggerAttribute: "adds command_effect Q s (handleTriggerAttribute env v s)"
  by (rule adds_weaken [OF adds_handleTriggerAttribute trigger_effect_command])

subsection \<open>Navigation and the tail of the pipeline\<close>

lemma adds_handleLocationAttribute:
  assumes "P SaveCurrentPageToHistory" and "\<And>path spec. P (AjaxGet path spec)"
  shows "adds P any_deferred s (snd (handleLocationAttribute env v s))"
  using assms
  by (auto simp: handleLocationAttribute_def adds_def emit_def register_def any_deferred_def
      split: option.splits json.splits sum.splits if_splits)

lemma quiet_immediate_commands:
  "adds command_effect any_deferred s (snd (immediate_commands env commandElt s))"
  unfolding immediate_commands_def
  by (intro adds_and_then adds_when_attribute adds_run quiet_handleTriggerAttribute
        adds_handleLocationAttribute)
     (auto simp: command_effect_def adds_refl intro!: adds_emit adds_emit_after)

lemma quiet_immediate_commands_without_location:
  assumes "getAttribute commandElt ''location'' = None"
  shows "adds command_effect no_deferred s (snd (immediate_commands env commandElt s))"
  unfolding immediate_commands_def
  by (intro adds_and_then adds_when_absent [OF assms] adds_when_attribute adds_run
        quiet_handleTriggerAttribute)
     (auto simp: command_effect_def adds_refl intro!: adds_emit adds_emit_after)

lemma quiet_finish_command:
  "adds command_effect any_deferred s (snd (finish_command env commandElt contextElt s))"
  unfolding finish_command_def
  by (intro adds_and_then adds_run adds_triggerEvent quiet_immediate_commands)
     (simp add: command_effect_def)

lemma quiet_finish_command_without_location:
  assumes "getAttribute commandElt ''location'' = None"
  shows "adds command_effect no_deferred s (snd (finish_command env commandElt contextElt s))"
  unfolding finish_command_def
  by (intro adds_and_then adds_run adds_triggerEvent
        quiet_immediate_commands_without_location [OF assms])
     (simp add: command_effect_def)

lemma quiet_after_swap_triggers:
  "adds command_effect Q s (snd (after_swap_triggers env commandElt contextElt [] s))"
  unfolding after_swap_triggers_def
  by (intro adds_and_then adds_when_attribute adds_run quiet_handleTriggerAttribute
        adds_triggerEvent)
     (simp_all add: command_effect_def adds_refl await_settles_def)

lemma adds_command_promise:
  assumes "adds P Q s (snd r)"
    and "\<And>e. P (TriggerErrorEvent DocumentBody ''htmx:serverCommandError''
                  (CommandErrorDetail e commandElt))"
  shows "adds P Q s (snd (command_promise env commandElt r))"
  using assms
  by (cases "(env, commandElt, r)" rule: command_promise.cases)
     (auto simp: triggerErrorEvent_def intro: adds_emit_after)

lemma quiet_command_promise:
  "adds command_effect Q s (snd r) \<Longrightarrow> adds command_effect Q s (snd (command_promise env commandElt r))"
  by (erule adds_command_promise) (simp add: command_effect_def)

subsection \<open>Swaps and the whole pipeline\<close>

lemma any_effect: "any_effect e"
  by (simp add: any_effect_def)

lemma adds_swapAsync: "adds any_effect Q s (snd (swapAsync env req s))"
  by (auto simp: swapAsync_def Let_def triggerEvent_def triggerErrorEvent_def adds_refl
      split: option.splits prod.splits if_splits
      intro!: adds_emit adds_emit_after any_effect)

lemma adds_process_swap_jobs:
  "adds any_effect Q s (snd (process_swap_jobs env contextElt spec commandSelect jobs s))"
proof (induction jobs arbitrary: s)
  case Nil
  then show ?case by (simp add: adds_refl)
next
  case (Cons job jobs)
  define s1 where
    "s1 = emit (TriggerEvent (targetEl job) ''htmx:beforeSwap''
                  (BeforeSwapDetail (beforeSwapDetails contextElt spec job))) s"
  have 1: "adds any_effect Q s s1"
    unfolding s1_def by (rule adds_emit) (rule any_effect)
  have 2: "adds any_effect Q s
             (snd (process_swap_jobs env contextElt spec commandSelect jobs s1))"
    using adds_trans [OF 1 Cons.IH] .
  have 3: "adds any_effect Q s s3"
    if "swapAsync env req s1 = (p, s2)"
      and "process_swap_jobs env contextElt spec commandSelect jobs s2 = (ps, s3)"
    for req p s2 ps s3
  proof -
    have "adds any_effect Q s1 s2"
      using adds_swapAsync [of Q s1 env req] that(1) by simp
    moreover have "adds any_effect Q s2 s3"
      using Cons.IH [of s2] that(2) by simp
    ultimately show ?thesis
      using 1 adds_trans by blast
  qed
  show ?case
    using 2 3
    by (auto simp: Let_def triggerEvent_def s1_def split: prod.splits)
qed

lemma adds_gather_swap_jobs:
  "adds any_effect Q s (snd (gather_swap_jobs env commandElt contextElt s))"
  by (auto simp: gather_swap_jobs_def triggerErrorEvent_def adds_refl
      split: option.splits sum.splits intro!: adds_emit any_effect)

lemma adds_start_swaps:
  "adds any_effect Q s (snd (start_swaps env commandElt contextElt swapJobs s))"
proof -
  obtain ps s' where p:
    "process_swap_jobs env contextElt
       (getSwapSpecification env (events s) contextElt (commandSwapStyle commandElt))
       (getAttributeValue commandElt ''select'') swapJobs s = (ps, s')"
    by (cases "process_swap_jobs env contextElt
       (getSwapSpecification env (events s) contextElt (commandSwapStyle commandElt))
       (getAttributeValue commandElt ''select'') swapJobs s")
  have "adds any_effect Q s s'"
    using adds_process_swap_jobs [of Q s env contextElt _ _ swapJobs] p by (metis snd_conv)
  then show ?thesis
    by (simp add: start_swaps_def Let_def p)
qed

lemma adds_await_settles: "adds P Q s (snd (await_settles settlePromises s))"
  by (simp add: await_settles_def adds_refl)

lemma adds_prepare: "adds any_effect Q s (snd (prepare env commandElt contextElt s))"
  unfolding prepare_def
  by (intro adds_and_then adds_gather_swap_jobs adds_start_swaps)
     (auto simp: before_command_def validation_def await_swaps_def triggerEvent_def adds_refl
        split: prod.splits sum.splits option.splits if_splits intro!: adds_emit any_effect)

lemma adds_after_swap_triggers:
  "adds any_effect Q s (snd (after_swap_triggers env commandElt contextElt settlePromises s))"
  unfolding after_swap_triggers_def
  by (intro adds_and_then adds_when_attribute adds_run adds_await_settles adds_triggerEvent
        adds_weaken [OF adds_handleTriggerAttribute] any_effect)

lemma adds_command_body:
  "adds any_effect any_deferred s (snd (command_body env commandElt contextElt s))"
  unfolding command_body_def until_immediate_def
  by (intro adds_and_then adds_prepare adds_after_swap_triggers adds_any [OF quiet_finish_command])

lemma adds_command_body_without_location:
  assumes "getAttribute commandElt ''location'' = None"
  shows "adds any_effect no_deferred s (snd (command_body env commandElt contextElt s))"
  unfolding command_body_def until_immediate_def
  by (intro adds_and_then adds_prepare adds_after_swap_triggers
        adds_weaken [OF quiet_finish_command_without_location [OF assms]] any_effect)

lemma adds_processCommandFromElement:
  "adds any_effect any_deferred s (snd (processCommandFromElement env commandElt contextElt s))"
  unfolding processCommandFromElement_def
  by (intro adds_command_promise adds_command_body any_effect)

lemma adds_processCommandFromElement_without_location:
  assumes "getAttribute commandElt ''location'' = None"
  shows "adds any_effect no_deferred s
           (snd (processCommandFromElement env commandElt contextElt s))"
  unfolding processCommandFromElement_def
  by (intro adds_command_promise adds_command_body_without_location [OF assms] any_effect)

lemma adds_process_commands:
  "adds any_effect any_deferred s (snd (process_commands env contextElt els s))"
proof (induction els arbitrary: s)
  case Nil
  then show ?case by (simp add: adds_refl)
next
  case (Cons el els)
  obtain r s' where p: "processCommandFromElement env el contextElt s = (r, s')"
    by (cases "processCommandFromElement env el contextElt s")
  have 1: "adds any_effect any_deferred s s'"
    using adds_processCommandFromElement [of s env el contextElt] p by simp
  show ?case
    using p 1 adds_trans [OF 1 Cons.IH] by (cases r) simp_all
qed

subsection \<open>What can leave a command waiting\<close>

lemma and_then_Normal: "m s = (Normal a, s') \<Longrightarrow> and_then m f s = f a s'"
  by (simp add: and_then_def)

lemma and_then_assoc: "and_then (and_then m f) g = and_then m (\<lambda>a. and_then (f a) g)"
  by (rule ext) (simp add: and_then_def split: prod.splits completion.splits)

lemma and_then_no_suspend:
  assumes "\<And>s. fst (m s) \<noteq> Suspend" and "\<And>a s. fst (f a s) \<noteq> Suspend"
  shows "fst (and_then m f s) \<noteq> Suspend"
  using assms(1) [of s] assms(2)
  by (cases "m s") (auto simp: and_then_def split: completion.splits)

lemma when_attribute_no_suspend:
  "(\<And>v s. fst (f v s) \<noteq> Suspend) \<Longrightarrow> fst (when_attribute commandElt name f s) \<noteq> Suspend"
  by (simp add: when_attribute_def split: option.splits)

lemma handleLocationAttribute_no_suspend: "fst (handleLocationAttribute env v s) \<noteq> Suspend"
  by (simp add: handleLocationAttribute_def split: option.splits json.splits sum.splits prod.splits)

lemma immediate_commands_no_suspend: "fst (immediate_commands env commandElt s) \<noteq> Suspend"
  unfolding immediate_commands_def
  by (intro and_then_no_suspend when_attribute_no_suspend handleLocationAttribute_no_suspend)
     (simp_all add: run_def)

lemma finish_command_no_suspend: "fst (finish_command env commandElt contextElt s) \<noteq> Suspend"
  unfolding finish_command_def
  by (intro and_then_no_suspend immediate_commands_no_suspend) (simp add: run_def)

lemma after_swap_triggers_no_suspend:
  "fst (after_swap_triggers env commandElt contextElt [] s) \<noteq> Suspend"
  unfolding after_swap_triggers_def
  by (intro and_then_no_suspend when_attribute_no_suspend)
     (simp_all add: run_def await_settles_def)

lemma command_promise_Resolved:
  "fst r \<noteq> Suspend \<Longrightarrow> fst (command_promise env commandElt r) = Resolved"
  by (cases "(env, commandElt, r)" rule: command_promise.cases) auto

section \<open>Commands that start no swap\<close>

lemma command_body_from_prepare:
  "prepare env commandElt contextElt s = (Normal settlePromises, s1) \<Longrightarrow>
   command_body env commandElt contextElt s =
     and_then (after_swap_triggers env commandElt contextElt settlePromises)
       (\<lambda>_. finish_command env commandElt contextElt) s1"
  by (simp add: command_body_def until_immediate_def and_then_assoc and_then_Normal)

lemma prepare_without_target:
  assumes "dispatch env (events s) contextElt ''htmx:beforeServerCommand''
             (BeforeCommandDetail commandElt contextElt)"
    and "validateCommandElement commandElt = Inr ()"
    and "\<not> truthy_attr (getAttributeValue commandElt ''target'')"
  shows "prepare env commandElt contextElt s =
           (Normal [], emit (TriggerEvent contextElt ''htmx:beforeServerCommand''
                              (BeforeCommandDetail commandElt contextElt)) s)"
  using assms
  by (cases "getAttributeValue commandElt ''target''")
     (simp_all add: prepare_def and_then_def before_command_def triggerEvent_def validation_def
        gather_swap_jobs_def start_swaps_def await_swaps_def)

lemma prepare_target_unresolved:
  assumes "dispatch env (events s) contextElt ''htmx:beforeServerCommand''
             (BeforeCommandDetail commandElt contextElt)"
    and "validateCommandElement commandElt = Inr ()"
    and "getAttributeValue commandElt ''target'' = Some selector" and "selector \<noteq> []"
    and "querySelector env
           (events s @ [TriggerEvent contextElt ''htmx:beforeServerCommand''
                          (BeforeCommandDetail commandElt contextElt)]) selector = NoMatch"
  shows "prepare env commandElt contextElt s =
           (Normal [],
            emit (TriggerErrorEvent contextElt ''htmx:targetError''
                    (TargetErrorDetail (TargetNotFound selector) selector))
              (emit (TriggerEvent contextElt ''htmx:beforeServerCommand''
                       (BeforeCommandDetail commandElt contextElt)) s))"
  using assms
  by (simp add: prepare_def and_then_def before_command_def triggerEvent_def validation_def
        gather_swap_jobs_def start_swaps_def await_swaps_def emit_def triggerErrorEvent_def)

lemma prepare_swap_cancelled:
  assumes "dispatch env (events s) contextElt ''htmx:beforeServerCommand''
             (BeforeCommandDetail commandElt contextElt)"
    and "validateCommandElement commandElt = Inr ()"
    and "getAttributeValue commandElt ''target'' = Some selector" and "selector \<noteq> []"
    and "querySelector env h selector = Found el"
    and "h = events s @ [TriggerEvent contextElt ''htmx:beforeServerCommand''
                          (BeforeCommandDetail commandElt contextElt)]"
    and "d = beforeSwapDetails contextElt
               (getSwapSpecification env h contextElt (commandSwapStyle commandElt))
               \<lparr>targetEl = el, content = innerHTML env (childNodes commandElt)\<rparr>"
    and "\<not> dispatch env h el ''htmx:beforeSwap'' (BeforeSwapDetail d)
         \<or> \<not> shouldSwap (beforeSwapListeners env h d)"
  shows "prepare env commandElt contextElt s =
           (Normal [],
            emit (TriggerEvent el ''htmx:beforeSwap'' (BeforeSwapDetail d))
              (emit (TriggerEvent contextElt ''htmx:beforeServerCommand''
                       (BeforeCommandDetail commandElt contextElt)) s))"
  using assms
  by (auto simp: prepare_def and_then_def before_command_def triggerEvent_def validation_def
        gather_swap_jobs_def start_swaps_def await_swaps_def emit_def Let_def)

lemma valid_names_of_valid:
  assumes "validateCommandElement commandElt = Inr ()"
  shows "list_all (\<lambda>attr. valid_name (fst attr)) (attributes commandElt)"
proof -
  have "filter (\<lambda>attr. \<not> valid_name (fst attr)) (attributes commandElt) = []"
    using assms unfolding validateCommandElement_def Let_def
    by (auto split: if_splits)
  then show ?thesis
    by (simp add: filter_empty_conv list_all_iff)
qed

lemma getAttribute_valid_name:
  assumes "list_all (\<lambda>attr. valid_name (fst attr)) (attributes commandElt)"
    and "\<not> valid_name name"
  shows "getAttribute commandElt name = None"
proof -
  have "name \<notin> fst ` set (attributes commandElt)"
    using assms by (auto simp: list_all_iff)
  then show ?thesis
    by (simp add: getAttribute_def map_of_eq_None_iff)
qed

lemma empty_target_is_falsy:
  assumes "validateCommandElement commandElt = Inr ()"
    and "getAttribute commandElt ''target'' = Some []"
  shows "\<not> truthy_attr (getAttributeValue commandElt ''target'')"
proof -
  have "getAttribute commandElt ''data-target'' = None"
    using valid_names_of_valid [OF assms(1)]
    by (rule getAttribute_valid_name) (simp add: valid_name_def VALID_COMMAND_ATTRIBUTES_def)
  then show ?thesis
    using assms(2) by (simp add: getAttributeValue_def getRawAttribute_def)
qed

lemma after_swap_triggers_without_settle:
  "after_swap_triggers env commandElt contextElt [] s1 =
     (Normal (),
      let s2 = emit (TriggerEvent contextElt ''htmx:afterSwap'' (CommandDetail commandElt)) s1;
          s3 = (case getAttribute commandElt ''trigger-after-swap'' of
                  None \<Rightarrow> s2 | Some v \<Rightarrow> handleTriggerAttribute env v s2)
      in (case getAttribute commandElt ''trigger-after-settle'' of
            None \<Rightarrow> s3 | Some v \<Rightarrow> handleTriggerAttribute env v s3))"
  by (simp add: after_swap_triggers_def and_then_def run_def when_attribute_def triggerEvent_def
        await_settles_def Let_def split: option.splits)

lemma without_swap:
  assumes "prepare env commandElt contextElt s = (Normal [], s1)"
  shows "processCommandFromElement env commandElt contextElt s =
           command_promise env commandElt
             (and_then (after_swap_triggers env commandElt contextElt [])
                (\<lambda>_. finish_command env commandElt contextElt) s1)"
    and "fst (processCommandFromElement env commandElt contextElt s) = Resolved"
    and "adds command_effect any_deferred s1
           (snd (processCommandFromElement env commandElt contextElt s))"
proof -
  show eq: "processCommandFromElement env commandElt contextElt s =
           command_promise env commandElt
             (and_then (after_swap_triggers env commandElt contextElt [])
                (\<lambda>_. finish_command env commandElt contextElt) s1)"
    by (simp add: processCommandFromElement_def command_body_from_prepare [OF assms])
  show "fst (processCommandFromElement env commandElt contextElt s) = Resolved"
    unfolding eq
    by (intro command_promise_Resolved and_then_no_suspend after_swap_triggers_no_suspend
          finish_command_no_suspend)
  show "adds command_effect any_deferred s1
          (snd (processCommandFromElement env commandElt contextElt s))"
    unfolding eq
    by (intro quiet_command_promise adds_and_then quiet_after_swap_triggers quiet_finish_command)
qed

text \<open>The definitions that evaluate a run on a concrete host.\<close>

lemmas run_defs =
  processCommandFromElement_def command_body_def until_immediate_def prepare_def
  after_swap_triggers_def finish_command_def immediate_commands_def before_command_def
  validation_def validateCommandElement_def gather_swap_jobs_def start_swaps_def await_swaps_def
  await_settles_def and_then_def run_def when_attribute_def triggerEvent_def triggerErrorEvent_def emit_def
  register_def handleTriggerAttribute_def fallback_triggers_def trim_def is_space_def
  handleLocationAttribute_def swapAsync_def trigger_target_def delete_property_def
  get_property_def commandSwapStyle_def beforeSwapDetails_def getAttributeValue_def
  getRawAttribute_def getAttribute_def hasAttribute_def valid_name_def
  VALID_COMMAND_ATTRIBUTES_def Let_def

lemmas sample_defs =
  sample_host_def sample_json_def sample_lookup_def sample_fragment_def button_def fresh_def

text \<open>
  C4, as stated: a command without a swap job fires no after-swap notification and does not
  dispatch its after-swap triggers. On the sample page the command
  \<^verbatim>\<open><htmx trigger-after-swap="x"></htmx>\<close> starts no swap, and yet the pipeline fires the
  \<^verbatim>\<open>htmx:afterSwap\<close> notification and the event \<^verbatim>\<open>x\<close>.
\<close>

theorem after_swap_phase_runs_without_swap:
  "processCommandFromElement sample_host
     (Element ''htmx'' [(''trigger-after-swap'', ''x'')] []) button fresh =
   (Resolved,
    \<lparr>events =
       [TriggerEvent button ''htmx:beforeServerCommand''
          (BeforeCommandDetail (Element ''htmx'' [(''trigger-after-swap'', ''x'')] []) button),
        TriggerEvent button ''htmx:afterSwap''
          (CommandDetail (Element ''htmx'' [(''trigger-after-swap'', ''x'')] [])),
        TriggerEvent DocumentBody ''x'' NoDetail,
        TriggerEvent button ''htmx:afterServerCommand''
          (CommandDetail (Element ''htmx'' [(''trigger-after-swap'', ''x'')] []))],
     pending = []\<rparr>)"
  by (simp add: run_defs sample_defs)

text \<open>
  C4, amended: when a command starts no swap, the two waits are no-ops, but the pipeline
  still fires the \<^verbatim>\<open>htmx:afterSwap\<close> notification and still dispatches the
  trigger-after-swap and trigger-after-settle values that are present, in this order, before
  the immediate phase. A command starts no swap when it has no usable target, and when the
  \<^verbatim>\<open>htmx:beforeSwap\<close> event is cancelled or a listener clears \<^verbatim>\<open>shouldSwap\<close>.
\<close>

theorem no_swap_still_runs_after_swap_phases:
  "(prepare env commandElt contextElt s = (Normal [], s1) \<longrightarrow>
      processCommandFromElement env commandElt contextElt s =
        command_promise env commandElt
          (finish_command env commandElt contextElt
             (let s2 = emit (TriggerEvent contextElt ''htmx:afterSwap'' (CommandDetail commandElt)) s1;
                  s3 = (case getAttribute commandElt ''trigger-after-swap'' of
                          None \<Rightarrow> s2 | Some v \<Rightarrow> handleTriggerAttribute env v s2)
              in (case getAttribute commandElt ''trigger-after-settle'' of
                    None \<Rightarrow> s3 | Some v \<Rightarrow> handleTriggerAttribute env v s3))))
   \<and> (dispatch env (events s) contextElt ''htmx:beforeServerCommand''
         (BeforeCommandDetail commandElt contextElt)
       \<and> validateCommandElement commandElt = Inr ()
       \<and> \<not> truthy_attr (getAttributeValue commandElt ''target'') \<longrightarrow>
         prepare env commandElt contextElt s =
           (Normal [], emit (TriggerEvent contextElt ''htmx:beforeServerCommand''
                              (BeforeCommandDetail commandElt contextElt)) s))
   \<and> (dispatch env (events s) contextElt ''htmx:beforeServerCommand''
         (BeforeCommandDetail commandElt contextElt)
       \<and> validateCommandElement commandElt = Inr ()
       \<and> getAttributeValue commandElt ''target'' = Some selector \<and> selector \<noteq> []
       \<and> h = events s @ [TriggerEvent contextElt ''htmx:beforeServerCommand''
                          (BeforeCommandDetail commandElt contextElt)]
       \<and> querySelector env h selector = Found el
       \<and> d = beforeSwapDetails contextElt
               (getSwapSpecification env h contextElt (commandSwapStyle commandElt))
               \<lparr>targetEl = el, content = innerHTML env (childNodes commandElt)\<rparr>
       \<and> (\<not> dispatch env h el ''htmx:beforeSwap'' (BeforeSwapDetail d)
            \<or> \<not> shouldSwap (beforeSwapListeners env h d)) \<longrightarrow>
         prepare env commandElt contextElt s =
           (Normal [],
            emit (TriggerEvent el ''htmx:beforeSwap'' (BeforeSwapDetail d))
              (emit (TriggerEvent contextElt ''htmx:beforeServerCommand''
                       (BeforeCommandDetail commandElt contextElt)) s)))"
proof (intro conjI impI)
  assume p: "prepare env commandElt contextElt s = (Normal [], s1)"
  show "processCommandFromElement env commandElt contextElt s =
        command_promise env commandElt
          (finish_command env commandElt contextElt
             (let s2 = emit (TriggerEvent contextElt ''htmx:afterSwap'' (CommandDetail commandElt)) s1;
                  s3 = (case getAttribute commandElt ''trigger-after-swap'' of
                          None \<Rightarrow> s2 | Some v \<Rightarrow> handleTriggerAttribute env v s2)
              in (case getAttribute commandElt ''trigger-after-settle'' of
                    None \<Rightarrow> s3 | Some v \<Rightarrow> handleTriggerAttribute env v s3)))"
    unfolding without_swap(1) [OF p]
    by (simp add: and_then_Normal [OF after_swap_triggers_without_settle])
next
  assume "dispatch env (events s) contextElt ''htmx:beforeServerCommand''
         (BeforeCommandDetail commandElt contextElt)
       \<and> validateCommandElement commandElt = Inr ()
       \<and> \<not> truthy_attr (getAttributeValue commandElt ''target'')"
  then show "prepare env commandElt contextElt s =
           (Normal [], emit (TriggerEvent contextElt ''htmx:beforeServerCommand''
                              (BeforeCommandDetail commandElt contextElt)) s)"
    by (intro prepare_without_target) simp_all
next
  assume a: "dispatch env (events s) contextElt ''htmx:beforeServerCommand''
         (BeforeCommandDetail commandElt contextElt)
       \<and> validateCommandElement commandElt = Inr ()
       \<and> getAttributeValue commandElt ''target'' = Some selector \<and> selector \<noteq> []
       \<and> h = events s @ [TriggerEvent contextElt ''htmx:beforeServerCommand''
                          (BeforeCommandDetail commandElt contextElt)]
       \<and> querySelector env h selector = Found el
       \<and> d = beforeSwapDetails contextElt
               (getSwapSpecification env h contextElt (commandSwapStyle commandElt))
               \<lparr>targetEl = el, content = innerHTML env (childNodes commandElt)\<rparr>
       \<and> (\<not> dispatch env h el ''htmx:beforeSwap'' (BeforeSwapDetail d)
            \<or> \<not> shouldSwap (beforeSwapListeners env h d))"
  show "prepare env commandElt contextElt s =
           (Normal [],
            emit (TriggerEvent el ''htmx:beforeSwap'' (BeforeSwapDetail d))
              (emit (TriggerEvent contextElt ''htmx:beforeServerCommand''
                       (BeforeCommandDetail commandElt contextElt)) s))"
    using a by (intro prepare_swap_cancelled [of env s contextElt commandElt selector h el d]) blast+
qed

theorem no_swap_witness:
  "prepare sample_host
     (Element ''htmx'' [(''trigger-after-swap'', ''x''), (''trigger-after-settle'', ''y'')] [])
     button fresh =
     (Normal [],
      emit (TriggerEvent button ''htmx:beforeServerCommand''
              (BeforeCommandDetail
                 (Element ''htmx'' [(''trigger-after-swap'', ''x''), (''trigger-after-settle'', ''y'')] [])
                 button)) fresh)
   \<and> new_effects fresh (snd (processCommandFromElement sample_host
         (Element ''htmx'' [(''trigger-after-swap'', ''x''), (''trigger-after-settle'', ''y'')] [])
         button fresh)) =
       [TriggerEvent button ''htmx:beforeServerCommand''
          (BeforeCommandDetail
             (Element ''htmx'' [(''trigger-after-swap'', ''x''), (''trigger-after-settle'', ''y'')] [])
             button),
        TriggerEvent button ''htmx:afterSwap''
          (CommandDetail
             (Element ''htmx'' [(''trigger-after-swap'', ''x''), (''trigger-after-settle'', ''y'')] [])),
        TriggerEvent DocumentBody ''x'' NoDetail,
        TriggerEvent DocumentBody ''y'' NoDetail,
        TriggerEvent button ''htmx:afterServerCommand''
          (CommandDetail
             (Element ''htmx'' [(''trigger-after-swap'', ''x''), (''trigger-after-settle'', ''y'')] []))]
   \<and> fst (prepare cancelling_host
         (Element ''htmx'' [(''target'', ''#t'')] [TextNode ''hi'']) button fresh) = Normal []"
  using no_swap_still_runs_after_swap_phases
    [where env = sample_host and contextElt = button and s = fresh
       and commandElt = "Element ''htmx'' [(''trigger-after-swap'', ''x''), (''trigger-after-settle'', ''y'')] []"
       and ?s1.0 = "emit (TriggerEvent button ''htmx:beforeServerCommand''
              (BeforeCommandDetail
                 (Element ''htmx'' [(''trigger-after-swap'', ''x''), (''trigger-after-settle'', ''y'')] [])
                 button)) fresh"]
    no_swap_still_runs_after_swap_phases
    [where env = cancelling_host and contextElt = button and s = fresh
       and commandElt = "Element ''htmx'' [(''target'', ''#t'')] [TextNode ''hi'']"
       and selector = "''#t''" and el = "LiveElement 1"
       and h = "[TriggerEvent button ''htmx:beforeServerCommand''
                   (BeforeCommandDetail (Element ''htmx'' [(''target'', ''#t'')] [TextNode ''hi''])
                      button)]"
       and d = "beforeSwapDetails button
                  \<lparr>swapStyle = ''outerHTML'', swapDelay = 0, settleDelay = 0, transition = None\<rparr>
                  \<lparr>targetEl = LiveElement 1, content = ''hi''\<rparr>"]
  by (simp add: run_defs sample_defs cancelling_host_def new_effects_def)

section \<open>Targets that resolve to nothing\<close>

text \<open>
  C6: when the target selector of a command matches no element (the command having passed
  the cancelable pre-event and validation), the pipeline fires \<^verbatim>\<open>htmx:targetError\<close>, creates
  no swap job and performs no swap, and then runs the rest of the pipeline for this command
  as for any command without a swap: after-swap notification and triggers, immediate
  commands, closing event. The promise of the command is fulfilled.
\<close>

theorem unresolved_target_skips_swap_only:
  assumes "dispatch env (events s) contextElt ''htmx:beforeServerCommand''
             (BeforeCommandDetail commandElt contextElt)"
    and "validateCommandElement commandElt = Inr ()"
    and "getAttributeValue commandElt ''target'' = Some selector" and "selector \<noteq> []"
    and "querySelector env
           (events s @ [TriggerEvent contextElt ''htmx:beforeServerCommand''
                          (BeforeCommandDetail commandElt contextElt)]) selector = NoMatch"
  shows "processCommandFromElement env commandElt contextElt s =
           command_promise env commandElt
             (and_then (after_swap_triggers env commandElt contextElt [])
                (\<lambda>_. finish_command env commandElt contextElt)
                (emit (TriggerErrorEvent contextElt ''htmx:targetError''
                         (TargetErrorDetail (TargetNotFound selector) selector))
                   (emit (TriggerEvent contextElt ''htmx:beforeServerCommand''
                            (BeforeCommandDetail commandElt contextElt)) s)))
         \<and> fst (processCommandFromElement env commandElt contextElt s) = Resolved
         \<and> take 2 (new_effects s (snd (processCommandFromElement env commandElt contextElt s))) =
             [TriggerEvent contextElt ''htmx:beforeServerCommand''
                (BeforeCommandDetail commandElt contextElt),
              TriggerErrorEvent contextElt ''htmx:targetError''
                (TargetErrorDetail (TargetNotFound selector) selector)]
         \<and> list_all (\<lambda>e. \<not> is_swap_effect e)
             (new_effects s (snd (processCommandFromElement env commandElt contextElt s)))"
proof -
  define s1 where
    "s1 = emit (TriggerErrorEvent contextElt ''htmx:targetError''
                  (TargetErrorDetail (TargetNotFound selector) selector))
            (emit (TriggerEvent contextElt ''htmx:beforeServerCommand''
                     (BeforeCommandDetail commandElt contextElt)) s)"
  have p: "prepare env commandElt contextElt s = (Normal [], s1)"
    unfolding s1_def by (rule prepare_target_unresolved [OF assms])
  obtain es where es: "events (snd (processCommandFromElement env commandElt contextElt s))
                         = events s1 @ es" and q: "list_all command_effect es"
    using without_swap(3) [OF p] by (auto simp: adds_def)
  have n: "new_effects s (snd (processCommandFromElement env commandElt contextElt s)) =
             [TriggerEvent contextElt ''htmx:beforeServerCommand''
                (BeforeCommandDetail commandElt contextElt),
              TriggerErrorEvent contextElt ''htmx:targetError''
                (TargetErrorDetail (TargetNotFound selector) selector)] @ es"
    by (simp add: new_effects_def es s1_def emit_def)
  have "list_all (\<lambda>e. \<not> is_swap_effect e) es"
    using q by (simp add: list_all_iff command_effect_def)
  then show ?thesis
    using without_swap(1,2) [OF p] n by (simp add: s1_def)
qed

theorem unresolved_target_witness:
  "validateCommandElement
     (Element ''htmx'' [(''target'', ''#zz''), (''trigger'', ''x''), (''push-url'', ''/p'')]
        [TextNode ''hi'']) = Inr ()
   \<and> querySelector sample_host
        [TriggerEvent button ''htmx:beforeServerCommand''
           (BeforeCommandDetail
              (Element ''htmx'' [(''target'', ''#zz''), (''trigger'', ''x''), (''push-url'', ''/p'')]
                 [TextNode ''hi'']) button)] ''#zz'' = NoMatch
   \<and> processCommandFromElement sample_host
        (Element ''htmx'' [(''target'', ''#zz''), (''trigger'', ''x''), (''push-url'', ''/p'')]
           [TextNode ''hi'']) button fresh =
      (Resolved,
       \<lparr>events =
          [TriggerEvent button ''htmx:beforeServerCommand''
             (BeforeCommandDetail
                (Element ''htmx'' [(''target'', ''#zz''), (''trigger'', ''x''), (''push-url'', ''/p'')]
                   [TextNode ''hi'']) button),
           TriggerErrorEvent button ''htmx:targetError''
             (TargetErrorDetail (TargetNotFound ''#zz'') ''#zz''),
           TriggerEvent button ''htmx:afterSwap''
             (CommandDetail
                (Element ''htmx'' [(''target'', ''#zz''), (''trigger'', ''x''), (''push-url'', ''/p'')]
                   [TextNode ''hi''])),
           TriggerEvent DocumentBody ''x'' NoDetail,
           SaveCurrentPageToHistory,
           PushUrlIntoHistory (Some (JStr ''/p'')),
           TriggerEvent button ''htmx:afterServerCommand''
             (CommandDetail
                (Element ''htmx'' [(''target'', ''#zz''), (''trigger'', ''x''), (''push-url'', ''/p'')]
                   [TextNode ''hi'']))],
        pending = []\<rparr>)"
proof -
  let ?m = "Element ''htmx'' [(''target'', ''#zz''), (''trigger'', ''x''), (''push-url'', ''/p'')]
              [TextNode ''hi'']"
  have 1: "dispatch sample_host (events fresh) button ''htmx:beforeServerCommand''
             (BeforeCommandDetail ?m button)"
    by (simp add: sample_defs)
  have 2: "validateCommandElement ?m = Inr ()"
    by (simp add: run_defs)
  have 3: "getAttributeValue ?m ''target'' = Some ''#zz''"
    by (simp add: run_defs)
  have 4: "''#zz'' \<noteq> []"
    by simp
  have 5: "querySelector sample_host
             (events fresh @ [TriggerEvent button ''htmx:beforeServerCommand''
                                (BeforeCommandDetail ?m button)]) ''#zz'' = NoMatch"
    by (simp add: sample_defs)
  show ?thesis
    using unresolved_target_skips_swap_only [OF 1 2 3 4 5] 2 5
    by (simp add: run_defs sample_defs)
qed

section \<open>An empty target\<close>

text \<open>
  C10: a command whose target attribute is the empty string. For validation the attribute
  is present: the swap-or-select-requires-target entry is never raised, and validation
  passes when no attribute is unknown. For the pipeline the value is falsy: given that the
  pre-event is not cancelled and validation passes, no swap job is created, there is no
  swap effect and no \<^verbatim>\<open>htmx:targetError\<close> event among the effects of the command, and the
  rest of the pipeline runs from the state after the pre-event, to a fulfilled promise.
\<close>

theorem empty_target_skips_swap_silently:
  assumes "getAttribute commandElt ''target'' = Some []"
  shows "SwapOrSelectWithoutTarget \<notin> set (diagnosed (validateCommandElement commandElt))
         \<and> (list_all (\<lambda>attr. valid_name (fst attr)) (attributes commandElt) \<longrightarrow>
              validateCommandElement commandElt = Inr ())
         \<and> (dispatch env (events s) contextElt ''htmx:beforeServerCommand''
               (BeforeCommandDetail commandElt contextElt)
             \<and> validateCommandElement commandElt = Inr () \<longrightarrow>
               processCommandFromElement env commandElt contextElt s =
                 command_promise env commandElt
                   (and_then (after_swap_triggers env commandElt contextElt [])
                      (\<lambda>_. finish_command env commandElt contextElt)
                      (emit (TriggerEvent contextElt ''htmx:beforeServerCommand''
                               (BeforeCommandDetail commandElt contextElt)) s))
               \<and> fst (processCommandFromElement env commandElt contextElt s) = Resolved
               \<and> list_all (\<lambda>e. \<not> is_swap_effect e \<and> \<not> is_target_error e)
                   (new_effects s (snd (processCommandFromElement env commandElt contextElt s))))"
proof (intro conjI impI)
  have t: "hasAttribute commandElt ''target''"
    using assms by (simp add: hasAttribute_def)
  have has: "list_ex (\<lambda>attr. valid_name (fst attr)) (attributes commandElt)"
  proof -
    have "(''target'', []) \<in> set (attributes commandElt)"
      using assms by (simp add: getAttribute_def map_of_SomeD)
    moreover have "valid_name (fst (''target'', []))"
      by (simp add: valid_name_def VALID_COMMAND_ATTRIBUTES_def)
    ultimately show ?thesis
      unfolding list_ex_iff by blast
  qed
  show "SwapOrSelectWithoutTarget \<notin> set (diagnosed (validateCommandElement commandElt))"
    using t has unfolding validateCommandElement_def Let_def by auto
  show "validateCommandElement commandElt = Inr ()"
    if "list_all (\<lambda>attr. valid_name (fst attr)) (attributes commandElt)"
  proof -
    have "filter (\<lambda>attr. \<not> valid_name (fst attr)) (attributes commandElt) = []"
      using that by (simp add: filter_empty_conv list_all_iff)
    then show ?thesis
      using t has unfolding validateCommandElement_def Let_def by simp
  qed
next
  assume a: "dispatch env (events s) contextElt ''htmx:beforeServerCommand''
               (BeforeCommandDetail commandElt contextElt)
             \<and> validateCommandElement commandElt = Inr ()"
  define s1 where
    "s1 = emit (TriggerEvent contextElt ''htmx:beforeServerCommand''
                  (BeforeCommandDetail commandElt contextElt)) s"
  have p: "prepare env commandElt contextElt s = (Normal [], s1)"
    unfolding s1_def using a empty_target_is_falsy [OF _ assms]
    by (intro prepare_without_target) simp_all
  obtain es where es: "events (snd (processCommandFromElement env commandElt contextElt s))
                         = events s1 @ es" and q: "list_all command_effect es"
    using without_swap(3) [OF p] by (auto simp: adds_def)
  have n: "new_effects s (snd (processCommandFromElement env commandElt contextElt s)) =
             TriggerEvent contextElt ''htmx:beforeServerCommand''
                (BeforeCommandDetail commandElt contextElt) # es"
    by (simp add: new_effects_def es s1_def emit_def)
  show "processCommandFromElement env commandElt contextElt s =
                 command_promise env commandElt
                   (and_then (after_swap_triggers env commandElt contextElt [])
                      (\<lambda>_. finish_command env commandElt contextElt)
                      (emit (TriggerEvent contextElt ''htmx:beforeServerCommand''
                               (BeforeCommandDetail commandElt contextElt)) s))"
    using without_swap(1) [OF p] by (simp add: s1_def)
  show "fst (processCommandFromElement env commandElt contextElt s) = Resolved"
    by (rule without_swap(2) [OF p])
  show "list_all (\<lambda>e. \<not> is_swap_effect e \<and> \<not> is_target_error e)
          (new_effects s (snd (processCommandFromElement env commandElt contextElt s)))"
    using q unfolding n by (simp add: list_all_iff command_effect_def)
qed

theorem empty_target_witness:
  "getAttribute (Element ''htmx'' [(''target'', ''''), (''swap'', ''innerHTML''), (''trigger'', ''x'')]
                   [TextNode ''hi'']) ''target'' = Some []
   \<and> validateCommandElement
        (Element ''htmx'' [(''target'', ''''), (''swap'', ''innerHTML''), (''trigger'', ''x'')]
           [TextNode ''hi'']) = Inr ()
   \<and> processCommandFromElement sample_host
        (Element ''htmx'' [(''target'', ''''), (''swap'', ''innerHTML''), (''trigger'', ''x'')]
           [TextNode ''hi'']) button fresh =
      (Resolved,
       \<lparr>events =
          [TriggerEvent button ''htmx:beforeServerCommand''
             (BeforeCommandDetail
                (Element ''htmx'' [(''target'', ''''), (''swap'', ''innerHTML''), (''trigger'', ''x'')]
                   [TextNode ''hi'']) button),
           TriggerEvent button ''htmx:afterSwap''
             (CommandDetail
                (Element ''htmx'' [(''target'', ''''), (''swap'', ''innerHTML''), (''trigger'', ''x'')]
                   [TextNode ''hi''])),
           TriggerEvent DocumentBody ''x'' NoDetail,
           TriggerEvent button ''htmx:afterServerCommand''
             (CommandDetail
                (Element ''htmx'' [(''target'', ''''), (''swap'', ''innerHTML''), (''trigger'', ''x'')]
                   [TextNode ''hi'']))],
        pending = []\<rparr>)"
proof -
  let ?m = "Element ''htmx'' [(''target'', ''''), (''swap'', ''innerHTML''), (''trigger'', ''x'')]
              [TextNode ''hi'']"
  have 1: "getAttribute ?m ''target'' = Some []"
    by (simp add: getAttribute_def)
  show ?thesis
    using empty_target_skips_swap_silently [OF 1, of sample_host fresh button] 1
    by (simp add: run_defs sample_defs)
qed

section \<open>Exceptions inside trigger dispatch\<close>

text \<open>
  C7, at a value that parses as a JSON object with the two keys \<^verbatim>\<open>a\<close> and \<^verbatim>\<open>b\<close>, both with
  an object as detail, where the detail of \<^verbatim>\<open>b\<close> names a target that is not a valid
  selector. The event \<^verbatim>\<open>a\<close> is fired with its detail; the lookup for \<^verbatim>\<open>b\<close> throws inside the
  \<^verbatim>\<open>try\<close> block, so the \<^verbatim>\<open>catch\<close> branch meant for a failed parse splits the whole text at
  its comma and fires both pieces as bare events. Three events are fired for two keys, and
  the event \<^verbatim>\<open>b\<close> is not among them.
\<close>

theorem trigger_lookup_error_runs_comma_fallback:
  "jsonParse sample_host ''{\"a\":{\"x\":1},\"b\":{\"target\":\"[[[\"}}''
     = Some (JObj [(''a'', JObj [(''x'', JNum 1)]), (''b'', JObj [(''target'', JStr ''[[['')])])
   \<and> handleTriggerAttribute sample_host ''{\"a\":{\"x\":1},\"b\":{\"target\":\"[[[\"}}'' fresh =
       \<lparr>events =
          [TriggerEvent DocumentBody ''a'' (JsonDetail (JObj [(''x'', JNum 1)])),
           TriggerEvent DocumentBody ''{\"a\":{\"x\":1}'' NoDetail,
           TriggerEvent DocumentBody ''\"b\":{\"target\":\"[[[\"}}'' NoDetail],
        pending = []\<rparr>"
  by (simp add: run_defs sample_defs)

text \<open>
  The same \<^verbatim>\<open>catch\<close> branch runs when the host's event call throws on a detail that is a
  number, a string or a boolean: the key fires nothing and the text is fired as a bare
  event.
\<close>

lemma primitive_detail_runs_comma_fallback:
  "handleTriggerAttribute sample_host ''{\"a\":1}'' fresh =
     \<lparr>events = [TriggerEvent DocumentBody ''{\"a\":1}'' NoDetail], pending = []\<rparr>"
  by (simp add: run_defs sample_defs)

text \<open>
  C2, at the command \<^verbatim>\<open><htmx trigger='{"a":{"target":"[[["}}'></htmx>\<close>: the exception thrown
  by the target lookup during trigger dispatch does not reach the \<^verbatim>\<open>catch\<close> block of
  \<^verbatim>\<open>processCommandFromElement\<close>. No \<^verbatim>\<open>htmx:serverCommandError\<close> event is fired; the command
  ends with its closing event as if nothing had failed.
\<close>

theorem trigger_exception_not_reported:
  "processCommandFromElement sample_host
     (Element ''htmx'' [(''trigger'', ''{\"a\":{\"target\":\"[[[\"}}'')] []) button fresh =
   (Resolved,
    \<lparr>events =
       [TriggerEvent button ''htmx:beforeServerCommand''
          (BeforeCommandDetail
             (Element ''htmx'' [(''trigger'', ''{\"a\":{\"target\":\"[[[\"}}'')] []) button),
        TriggerEvent button ''htmx:afterSwap''
          (CommandDetail (Element ''htmx'' [(''trigger'', ''{\"a\":{\"target\":\"[[[\"}}'')] [])),
        TriggerEvent DocumentBody ''{\"a\":{\"target\":\"[[[\"}}'' NoDetail,
        TriggerEvent button ''htmx:afterServerCommand''
          (CommandDetail (Element ''htmx'' [(''trigger'', ''{\"a\":{\"target\":\"[[[\"}}'')] []))],
     pending = []\<rparr>)"
  by (simp add: run_defs sample_defs)

text \<open>
  What the boundary does with an exception that reaches it: the error is reported on the
  document body with the command element, the promise of the command is fulfilled, and the
  loop goes on with the next command. The same invalid selector in the target attribute is
  reported this way.
\<close>

lemma thrown_error_is_reported:
  assumes "command_body env commandElt contextElt s = (Throw error, s')"
  shows "processCommandFromElement env commandElt contextElt s =
           (Resolved,
            emit (TriggerErrorEvent DocumentBody ''htmx:serverCommandError''
                    (CommandErrorDetail error commandElt)) s')"
    and "process_commands env contextElt (commandElt # later) s =
           process_commands env contextElt later
             (emit (TriggerErrorEvent DocumentBody ''htmx:serverCommandError''
                      (CommandErrorDetail error commandElt)) s')"
  using assms by (simp_all add: processCommandFromElement_def triggerErrorEvent_def)

lemma invalid_target_selector_is_reported:
  "processCommandFromElement sample_host
     (Element ''htmx'' [(''target'', ''[[['')] [TextNode ''hi'']) button fresh =
   (Resolved,
    \<lparr>events =
       [TriggerEvent button ''htmx:beforeServerCommand''
          (BeforeCommandDetail (Element ''htmx'' [(''target'', ''[[['')] [TextNode ''hi'']) button),
        TriggerErrorEvent DocumentBody ''htmx:serverCommandError''
          (CommandErrorDetail (SelectorSyntaxError ''[[['')
             (Element ''htmx'' [(''target'', ''[[['')] [TextNode ''hi'']))],
     pending = []\<rparr>)"
  by (simp add: run_defs sample_defs)

text \<open>
  With a settle delay the swap promise is fulfilled only after settling, so the after-swap
  notification and both kinds of timed trigger come after the settle tasks.
\<close>

lemma settling_precedes_after_swap_triggers:
  "new_effects fresh (snd (processCommandFromElement settle_delay_host
      (Element ''htmx''
         [(''target'', ''#t''), (''trigger-after-swap'', ''s1''), (''trigger-after-settle'', ''s2'')]
         [TextNode ''hi'']) button fresh)) =
     [TriggerEvent button ''htmx:beforeServerCommand''
        (BeforeCommandDetail
           (Element ''htmx''
              [(''target'', ''#t''), (''trigger-after-swap'', ''s1''),
               (''trigger-after-settle'', ''s2'')] [TextNode ''hi'']) button),
      TriggerEvent (LiveElement 1) ''htmx:beforeSwap''
        (BeforeSwapDetail
           \<lparr>elt = button, target = LiveElement 1,
            swapSpec = \<lparr>swapStyle = ''outerHTML'', swapDelay = 0, settleDelay = 20,
                         transition = None\<rparr>,
            serverResponse = ''hi'', shouldSwap = True, fromServerCommand = True\<rparr>),
      DomSwap
        \<lparr>swapTarget = LiveElement 1, swapContent = ''hi'',
         swapSpecification = \<lparr>swapStyle = ''outerHTML'', swapDelay = 0, settleDelay = 20,
                                  transition = None\<rparr>,
         swapSelect = None, swapContext = button\<rparr>,
      DomSettle
        \<lparr>swapTarget = LiveElement 1, swapContent = ''hi'',
         swapSpecification = \<lparr>swapStyle = ''outerHTML'', swapDelay = 0, settleDelay = 20,
                                  transition = None\<rparr>,
         swapSelect = None, swapContext = button\<rparr>,
      TriggerEvent button ''htmx:afterSwap''
        (CommandDetail
           (Element ''htmx''
              [(''target'', ''#t''), (''trigger-after-swap'', ''s1''),
               (''trigger-after-settle'', ''s2'')] [TextNode ''hi''])),
      TriggerEvent DocumentBody ''s1'' NoDetail,
      TriggerEvent DocumentBody ''s2'' NoDetail,
      TriggerEvent button ''htmx:afterServerCommand''
        (CommandDetail
           (Element ''htmx''
              [(''target'', ''#t''), (''trigger-after-swap'', ''s1''),
               (''trigger-after-settle'', ''s2'')] [TextNode ''hi'']))]"
  by (simp add: run_defs sample_defs settle_delay_host_def new_effects_def)

text \<open>
  An exception of the DOM mutation that is thrown from the swap-delay timer settles nothing:
  the command waits forever and the commands after it are never processed.
\<close>

lemma delayed_swap_failure_stalls_the_run:
  "process_commands failing_delayed_host button
     [Element ''htmx'' [(''target'', ''#t'')] [TextNode ''hi''],
      Element ''htmx'' [(''trigger'', ''done'')] []] fresh =
   (Unsettled,
    \<lparr>events =
       [TriggerEvent button ''htmx:beforeServerCommand''
          (BeforeCommandDetail (Element ''htmx'' [(''target'', ''#t'')] [TextNode ''hi'']) button),
        TriggerEvent (LiveElement 1) ''htmx:beforeSwap''
          (BeforeSwapDetail
             \<lparr>elt = button, target = LiveElement 1,
              swapSpec = \<lparr>swapStyle = ''outerHTML'', swapDelay = 100, settleDelay = 0,
                           transition = None\<rparr>,
              serverResponse = ''hi'', shouldSwap = True, fromServerCommand = True\<rparr>)],
     pending = []\<rparr>)"
  by (simp add: run_defs sample_defs failing_delayed_host_def)

section \<open>The immediate phase\<close>

lemma immediate_commands_cong:
  "map_of (attributes commandElt') = map_of (attributes commandElt) \<Longrightarrow>
   immediate_commands env commandElt' = immediate_commands env commandElt"
  by (simp add: immediate_commands_def when_attribute_def [abs_def] getAttribute_def)

lemma map_of_permuted:
  assumes "distinct (map fst xs)" and "mset ys = mset xs"
  shows "map_of ys = map_of xs"
proof -
  have "mset (map fst ys) = mset (map fst xs)"
    using assms(2) by simp
  then have "distinct (map fst ys)"
    using assms(1) by (metis mset_eq_imp_distinct_iff)
  moreover have "set ys = set xs"
    using assms(2) by (rule mset_eq_setD)
  ultimately show ?thesis
    using assms(1) by (simp add: map_of_inject_set)
qed

lemma finish_command_unfolded:
  "finish_command env commandElt contextElt s0 =
     (let s1 = (case getAttribute commandElt ''trigger'' of
                  None \<Rightarrow> s0 | Some v \<Rightarrow> handleTriggerAttribute env v s0);
          located = (case getAttribute commandElt ''location'' of
                       None \<Rightarrow> (Normal (), s1) | Some v \<Rightarrow> handleLocationAttribute env v s1);
          s2 = snd located;
          s3 = (case getAttribute commandElt ''push-url'' of
                  None \<Rightarrow> s2
                | Some v \<Rightarrow> emit (PushUrlIntoHistory (Some (JStr v)))
                             (emit SaveCurrentPageToHistory s2));
          s4 = (case getAttribute commandElt ''replace-url'' of
                  None \<Rightarrow> s3
                | Some v \<Rightarrow> emit (ReplaceUrlInHistory v) (emit SaveCurrentPageToHistory s3));
          finished = (Normal (),
                      emit (TriggerEvent contextElt ''htmx:afterServerCommand''
                              (CommandDetail commandElt)) s4)
      in case fst located of
           Throw e \<Rightarrow> (Throw e, s2)
         | _ \<Rightarrow>
             (case getAttribute commandElt ''redirect'' of
                Some url \<Rightarrow> (Return, emit (SetLocationHref url) s2)
              | None \<Rightarrow>
                  (case getAttribute commandElt ''refresh'' of
                     None \<Rightarrow> finished
                   | Some v \<Rightarrow>
                       if v \<noteq> ''false'' then (Return, emit LocationReload s2) else finished)))"
proof -
  define s1 where
    "s1 = (case getAttribute commandElt ''trigger'' of
             None \<Rightarrow> s0 | Some v \<Rightarrow> handleTriggerAttribute env v s0)"
  define located where
    "located = (case getAttribute commandElt ''location'' of
                  None \<Rightarrow> (Normal (), s1) | Some v \<Rightarrow> handleLocationAttribute env v s1)"
  define history where
    "history = (\<lambda>s2.
       let s3 = (case getAttribute commandElt ''push-url'' of
                   None \<Rightarrow> s2
                 | Some v \<Rightarrow> emit (PushUrlIntoHistory (Some (JStr v)))
                              (emit SaveCurrentPageToHistory s2))
       in (case getAttribute commandElt ''replace-url'' of
             None \<Rightarrow> s3
           | Some v \<Rightarrow> emit (ReplaceUrlInHistory v) (emit SaveCurrentPageToHistory s3)))"
  define navigate :: "pstate \<Rightarrow> unit completion \<times> pstate" where
    "navigate = (\<lambda>s2.
       case getAttribute commandElt ''redirect'' of
         Some url \<Rightarrow> (Return, emit (SetLocationHref url) s2)
       | None \<Rightarrow>
           (case getAttribute commandElt ''refresh'' of
              None \<Rightarrow> (Normal (), history s2)
            | Some v \<Rightarrow>
                if v \<noteq> ''false'' then (Return, emit LocationReload s2)
                else (Normal (), history s2)))"
  define rest :: "pstate \<Rightarrow> unit completion \<times> pstate" where
    "rest = (\<lambda>s2.
       case navigate s2 of
         (Normal u, s4) \<Rightarrow>
           (Normal (), emit (TriggerEvent contextElt ''htmx:afterServerCommand''
                               (CommandDetail commandElt)) s4)
       | other \<Rightarrow> other)"
  have t: "when_attribute commandElt ''trigger'' (\<lambda>v. run (handleTriggerAttribute env v)) s0
             = (Normal (), s1)"
    by (simp add: when_attribute_def run_def s1_def split: option.splits)
  have l: "when_attribute commandElt ''location'' (handleLocationAttribute env) s1 = located"
    by (simp add: when_attribute_def located_def split: option.splits)
  have shape: "(\<exists>e. fst located = Throw e) \<or> fst located = Normal ()"
    by (auto simp: located_def handleLocationAttribute_def
        split: option.splits json.splits sum.splits prod.splits if_splits)
  have tail: "and_then (when_attribute commandElt ''redirect''
                          (\<lambda>v s. (Return, emit (SetLocationHref v) s)))
                (\<lambda>_. and_then (when_attribute commandElt ''refresh''
                          (\<lambda>v s. if v \<noteq> ''false'' then (Return, emit LocationReload s)
                                 else (Normal (), s)))
                (\<lambda>_. and_then (when_attribute commandElt ''push-url''
                          (\<lambda>v. run (\<lambda>s. emit (PushUrlIntoHistory (Some (JStr v)))
                                           (emit SaveCurrentPageToHistory s))))
                (\<lambda>_. when_attribute commandElt ''replace-url''
                          (\<lambda>v. run (\<lambda>s. emit (ReplaceUrlInHistory v)
                                           (emit SaveCurrentPageToHistory s)))))) s2 =
              navigate s2" for s2
    by (simp add: navigate_def history_def and_then_def when_attribute_def run_def Let_def
        split: option.splits)
  have post: "and_then navigate
                (\<lambda>_. run (\<lambda>s. snd (triggerEvent env contextElt ''htmx:afterServerCommand''
                                        (CommandDetail commandElt) s))) s2 = rest s2"
    for s2
    by (simp add: rest_def and_then_def run_def triggerEvent_def
        split: prod.splits completion.splits)
  have main: "finish_command env commandElt contextElt s0 =
                (case fst located of Throw e \<Rightarrow> (Throw e, snd located) | _ \<Rightarrow> rest (snd located))"
  proof -
    obtain c s2 where loc: "located = (c, s2)"
      by (cases located)
    have imm: "immediate_commands env commandElt s0 =
                 (case c of Throw e \<Rightarrow> (Throw e, s2) | _ \<Rightarrow> navigate s2)"
      using shape loc
      unfolding immediate_commands_def
      by (subst and_then_def, simp only: t prod.case completion.case,
          subst and_then_def, simp only: l loc prod.case)
         (auto simp: tail)
    show ?thesis
    proof (cases c)
      case (Throw e)
      then show ?thesis
        using imm loc by (simp add: finish_command_def and_then_def)
    next
      case (Normal u)
      have "finish_command env commandElt contextElt s0 = rest s2"
        using imm Normal post [of s2]
        by (simp add: finish_command_def and_then_def)
      then show ?thesis
        using loc Normal by simp
    qed (use shape loc in auto)
  qed
  show ?thesis
    unfolding main
    by (simp add: Let_def rest_def navigate_def history_def s1_def located_def
        split: completion.splits option.splits)
qed

text \<open>
  C3: for a command that has reached the immediate phase in state \<open>s0\<close>. The actions run in
  the order trigger, location, redirect, refresh, push-url, replace-url, each on the state
  the one before left. A redirect, or a refresh whose value is not \<^verbatim>\<open>false\<close>, is the last
  effect of the command: neither the history actions nor the closing
  \<^verbatim>\<open>htmx:afterServerCommand\<close> event follow. (A location value that fails to parse stops
  the command earlier, by its exception.) In every case the promise of the command is
  fulfilled and the loop goes on with the later commands. The phase reads attributes by
  name only, so a command whose attributes are permuted runs the same immediate phase.
\<close>

theorem immediate_phase_fixed_order:
  assumes "until_immediate env commandElt contextElt s = (Normal (), s0)"
  shows "(let s1 = (case getAttribute commandElt ''trigger'' of
                      None \<Rightarrow> s0 | Some v \<Rightarrow> handleTriggerAttribute env v s0);
              located = (case getAttribute commandElt ''location'' of
                           None \<Rightarrow> (Normal (), s1)
                         | Some v \<Rightarrow> handleLocationAttribute env v s1);
              s2 = snd located;
              s3 = (case getAttribute commandElt ''push-url'' of
                      None \<Rightarrow> s2
                    | Some v \<Rightarrow> emit (PushUrlIntoHistory (Some (JStr v)))
                                 (emit SaveCurrentPageToHistory s2));
              s4 = (case getAttribute commandElt ''replace-url'' of
                      None \<Rightarrow> s3
                    | Some v \<Rightarrow> emit (ReplaceUrlInHistory v) (emit SaveCurrentPageToHistory s3));
              finished = emit (TriggerEvent contextElt ''htmx:afterServerCommand''
                                 (CommandDetail commandElt)) s4
          in processCommandFromElement env commandElt contextElt s =
               (Resolved,
                case fst located of
                  Throw e \<Rightarrow>
                    emit (TriggerErrorEvent DocumentBody ''htmx:serverCommandError''
                            (CommandErrorDetail e commandElt)) s2
                | _ \<Rightarrow>
                    (case getAttribute commandElt ''redirect'' of
                       Some url \<Rightarrow> emit (SetLocationHref url) s2
                     | None \<Rightarrow>
                         (case getAttribute commandElt ''refresh'' of
                            None \<Rightarrow> finished
                          | Some v \<Rightarrow>
                              if v \<noteq> ''false'' then emit LocationReload s2 else finished))))
         \<and> process_commands env contextElt (commandElt # later) s =
             process_commands env contextElt later
               (snd (processCommandFromElement env commandElt contextElt s))
         \<and> (distinct (map fst (attributes commandElt))
              \<and> mset (attributes permuted) = mset (attributes commandElt) \<longrightarrow>
              immediate_commands env permuted = immediate_commands env commandElt)"
proof (intro conjI impI)
  have body: "command_body env commandElt contextElt s =
                finish_command env commandElt contextElt s0"
    using assms by (simp add: command_body_def and_then_def)
  show "let s1 = (case getAttribute commandElt ''trigger'' of
                      None \<Rightarrow> s0 | Some v \<Rightarrow> handleTriggerAttribute env v s0);
              located = (case getAttribute commandElt ''location'' of
                           None \<Rightarrow> (Normal (), s1)
                         | Some v \<Rightarrow> handleLocationAttribute env v s1);
              s2 = snd located;
              s3 = (case getAttribute commandElt ''push-url'' of
                      None \<Rightarrow> s2
                    | Some v \<Rightarrow> emit (PushUrlIntoHistory (Some (JStr v)))
                                 (emit SaveCurrentPageToHistory s2));
              s4 = (case getAttribute commandElt ''replace-url'' of
                      None \<Rightarrow> s3
                    | Some v \<Rightarrow> emit (ReplaceUrlInHistory v) (emit SaveCurrentPageToHistory s3));
              finished = emit (TriggerEvent contextElt ''htmx:afterServerCommand''
                                 (CommandDetail commandElt)) s4
          in processCommandFromElement env commandElt contextElt s =
               (Resolved,
                case fst located of
                  Throw e \<Rightarrow>
                    emit (TriggerErrorEvent DocumentBody ''htmx:serverCommandError''
                            (CommandErrorDetail e commandElt)) s2
                | _ \<Rightarrow>
                    (case getAttribute commandElt ''redirect'' of
                       Some url \<Rightarrow> emit (SetLocationHref url) s2
                     | None \<Rightarrow>
                         (case getAttribute commandElt ''refresh'' of
                            None \<Rightarrow> finished
                          | Some v \<Rightarrow>
                              if v \<noteq> ''false'' then emit LocationReload s2 else finished)))"
    unfolding processCommandFromElement_def body finish_command_unfolded Let_def
    by (simp add: triggerErrorEvent_def split: completion.splits option.splits)
  have "fst (processCommandFromElement env commandElt contextElt s) = Resolved"
    unfolding processCommandFromElement_def body
    by (intro command_promise_Resolved finish_command_no_suspend)
  then show "process_commands env contextElt (commandElt # later) s =
             process_commands env contextElt later
               (snd (processCommandFromElement env commandElt contextElt s))"
    by (cases "processCommandFromElement env commandElt contextElt s") simp
next
  assume "distinct (map fst (attributes commandElt))
            \<and> mset (attributes permuted) = mset (attributes commandElt)"
  then show "immediate_commands env permuted = immediate_commands env commandElt"
    by (intro immediate_commands_cong map_of_permuted) simp_all
qed

theorem immediate_phase_witness:
  "until_immediate sample_host
     (Element ''htmx''
        [(''replace-url'', ''/q''), (''push-url'', ''/p''), (''redirect'', ''/r''),
         (''location'', ''/a''), (''trigger'', ''x'')] []) button fresh =
     (Normal (),
      \<lparr>events =
         [TriggerEvent button ''htmx:beforeServerCommand''
            (BeforeCommandDetail
               (Element ''htmx''
                  [(''replace-url'', ''/q''), (''push-url'', ''/p''), (''redirect'', ''/r''),
                   (''location'', ''/a''), (''trigger'', ''x'')] []) button),
          TriggerEvent button ''htmx:afterSwap''
            (CommandDetail
               (Element ''htmx''
                  [(''replace-url'', ''/q''), (''push-url'', ''/p''), (''redirect'', ''/r''),
                   (''location'', ''/a''), (''trigger'', ''x'')] []))],
       pending = []\<rparr>)
   \<and> process_commands sample_host button
        [Element ''htmx''
           [(''replace-url'', ''/q''), (''push-url'', ''/p''), (''redirect'', ''/r''),
            (''location'', ''/a''), (''trigger'', ''x'')] [],
         Element ''htmx'' [(''trigger'', ''next'')] []] fresh =
      (Resolved,
       \<lparr>events =
          [TriggerEvent button ''htmx:beforeServerCommand''
             (BeforeCommandDetail
                (Element ''htmx''
                   [(''replace-url'', ''/q''), (''push-url'', ''/p''), (''redirect'', ''/r''),
                    (''location'', ''/a''), (''trigger'', ''x'')] []) button),
           TriggerEvent button ''htmx:afterSwap''
             (CommandDetail
                (Element ''htmx''
                   [(''replace-url'', ''/q''), (''push-url'', ''/p''), (''redirect'', ''/r''),
                    (''location'', ''/a''), (''trigger'', ''x'')] [])),
           TriggerEvent DocumentBody ''x'' NoDetail,
           SaveCurrentPageToHistory,
           AjaxGet (Some (JStr ''/a'')) (JObj []),
           SetLocationHref ''/r'',
           TriggerEvent button ''htmx:beforeServerCommand''
             (BeforeCommandDetail (Element ''htmx'' [(''trigger'', ''next'')] []) button),
           TriggerEvent button ''htmx:afterSwap''
             (CommandDetail (Element ''htmx'' [(''trigger'', ''next'')] [])),
           TriggerEvent DocumentBody ''next'' NoDetail,
           TriggerEvent button ''htmx:afterServerCommand''
             (CommandDetail (Element ''htmx'' [(''trigger'', ''next'')] []))],
        pending = [ThenPushUrlIntoHistory (Some (JStr ''/a''))]\<rparr>)
   \<and> immediate_commands sample_host
        (Element ''htmx''
           [(''trigger'', ''x''), (''location'', ''/a''), (''redirect'', ''/r''),
            (''push-url'', ''/p''), (''replace-url'', ''/q'')] []) =
      immediate_commands sample_host
        (Element ''htmx''
           [(''replace-url'', ''/q''), (''push-url'', ''/p''), (''redirect'', ''/r''),
            (''location'', ''/a''), (''trigger'', ''x'')] [])"
proof -
  let ?m = "Element ''htmx''
              [(''replace-url'', ''/q''), (''push-url'', ''/p''), (''redirect'', ''/r''),
               (''location'', ''/a''), (''trigger'', ''x'')] []"
  let ?p = "Element ''htmx''
              [(''trigger'', ''x''), (''location'', ''/a''), (''redirect'', ''/r''),
               (''push-url'', ''/p''), (''replace-url'', ''/q'')] []"
  let ?s0 = "\<lparr>events =
               [TriggerEvent button ''htmx:beforeServerCommand'' (BeforeCommandDetail ?m button),
                TriggerEvent button ''htmx:afterSwap'' (CommandDetail ?m)],
             pending = []\<rparr>"
  have reach: "until_immediate sample_host ?m button fresh = (Normal (), ?s0)"
    by (simp add: run_defs sample_defs)
  have perm: "distinct (map fst (attributes ?m)) \<and> mset (attributes ?p) = mset (attributes ?m)"
    by (simp add: add.commute add.left_commute)
  have next_command:
    "process_commands sample_host button [Element ''htmx'' [(''trigger'', ''next'')] []] s =
       (Resolved,
        s\<lparr>events := events s @
           [TriggerEvent button ''htmx:beforeServerCommand''
              (BeforeCommandDetail (Element ''htmx'' [(''trigger'', ''next'')] []) button),
            TriggerEvent button ''htmx:afterSwap''
              (CommandDetail (Element ''htmx'' [(''trigger'', ''next'')] [])),
            TriggerEvent DocumentBody ''next'' NoDetail,
            TriggerEvent button ''htmx:afterServerCommand''
              (CommandDetail (Element ''htmx'' [(''trigger'', ''next'')] []))]\<rparr>)" for s
    by (simp add: run_defs sample_defs)
  show ?thesis
    using immediate_phase_fixed_order
            [OF reach, of "[Element ''htmx'' [(''trigger'', ''next'')] []]" ?p]
      reach perm
    by (simp add: next_command)
       (simp add: run_defs sample_defs)
qed

section \<open>Nested commands\<close>

lemma path_lengths:
  "\<forall>found \<in> set (subtree p n). length p \<le> length (fst found)"
  "\<forall>found \<in> set (forest p i cs). Suc (length p) \<le> length (fst found)"
  by (induction p n and p i cs rule: subtree_forest.induct) auto

lemma forest_below_is_deeper:
  "filter (\<lambda>found. is_command (snd found) \<and> length (fst found) = length p) (forest p i cs) = []"
  using path_lengths(2) [of p i cs] by (auto simp: filter_empty_conv)

lemma top_level_commands:
  "map snd (filter (\<lambda>found. is_command (snd found) \<and> length (fst found) = length p)
              (subtree p n)) = (if is_command n then [n] else [])"
  "map snd (filter (\<lambda>found. is_command (snd found) \<and> length (fst found) = Suc (length p))
              (forest p i cs)) = filter is_command cs"
proof (induction p n and p i cs rule: subtree_forest.induct)
  case (1 p t)
  then show ?case by simp
next
  case (2 p t a cs)
  then show ?case
    using forest_below_is_deeper [of p 0 cs] by simp
next
  case (3 p i)
  then show ?case by simp
next
  case (4 p i c cs)
  have "map snd (filter (\<lambda>found. is_command (snd found) \<and> length (fst found) = Suc (length p))
                   (subtree (p @ [i]) c)) = (if is_command c then [c] else [])"
    using "4.IH"(1) by simp
  then show ?case
    using "4.IH"(2) by simp
qed

lemma top_level_are_fragment_children:
  "map snd (filter parent_is_fragment (querySelectorAll_htmx fragment)) = filter is_command fragment"
proof -
  have "filter parent_is_fragment (querySelectorAll_htmx fragment) =
          filter (\<lambda>found. is_command (snd found) \<and> length (fst found) = Suc (length ([] :: nat list)))
            (forest [] 0 fragment)"
    by (simp add: querySelectorAll_htmx_def parent_is_fragment_def conj_commute)
  then show ?thesis
    using top_level_commands(2) [of "[]" 0 fragment] by simp
qed

lemma removed_everywhere:
  "\<not> is_command n \<longrightarrow>
     (\<forall>p. filter (\<lambda>found. is_command (snd found)) (subtree p (without_commands n)) = [])"
  "\<forall>p i. filter (\<lambda>found. is_command (snd found)) (forest p i (remove_commands cs)) = []"
  by (induction n and cs rule: without_commands_remove_commands.induct) auto

lemma no_command_left: "querySelectorAll_htmx (remove_commands fragment) = []"
  using removed_everywhere(2) [of fragment] by (simp add: querySelectorAll_htmx_def)

lemma fewer_top_level_iff_nested:
  "length (filter parent_is_fragment found) < length found \<longleftrightarrow>
   filter (\<lambda>f. \<not> parent_is_fragment f) found \<noteq> []"
  by (induction found) (auto simp: less_Suc_eq_le)

text \<open>
  C8: for a response that holds command elements. The commands that are processed are the
  command elements among the children of the fragment root, in document order, and no
  other: a command element below any other element, at whatever depth, is not among them.
  The text handed back is the serialisation of the fragment without its command elements,
  and that fragment holds no command element at any depth. The warning is logged, before
  any command is processed, exactly when some command element is nested; every such element
  lies at depth two or more.
\<close>

theorem nested_commands_are_discarded:
  assumes "text \<noteq> []" and "querySelectorAll_htmx (makeFragment env text) \<noteq> []"
  shows "(let fragment = makeFragment env text;
              nested = filter (\<lambda>found. \<not> parent_is_fragment found)
                         (querySelectorAll_htmx fragment)
          in transformResponse env text contextElt s =
               (innerHTML env (remove_commands fragment),
                process_commands env contextElt
                  (scheduled_commands (filter is_command fragment))
                  (if nested \<noteq> []
                   then emit (ConsoleWarn (NestedCommandsDiscarded contextElt)) s else s))
             \<and> querySelectorAll_htmx (remove_commands fragment) = []
             \<and> list_all (\<lambda>found. 2 \<le> length (fst found)) nested)"
proof -
  define fragment where "fragment = makeFragment env text"
  define nested where
    "nested = filter (\<lambda>found. \<not> parent_is_fragment found) (querySelectorAll_htmx fragment)"
  have 1: "transformResponse env text contextElt s =
             (innerHTML env (remove_commands fragment),
              process_commands env contextElt
                (scheduled_commands (filter is_command fragment))
                (if nested \<noteq> []
                 then emit (ConsoleWarn (NestedCommandsDiscarded contextElt)) s else s))"
    using assms
    by (simp add: transformResponse_def Let_def fragment_def [symmetric]
          top_level_are_fragment_children fewer_top_level_iff_nested nested_def)
  have "\<forall>found \<in> set (querySelectorAll_htmx fragment). 1 \<le> length (fst found)"
    using path_lengths(2) [of "[]" 0 fragment] by (auto simp: querySelectorAll_htmx_def)
  then have 2: "list_all (\<lambda>found. 2 \<le> length (fst found)) nested"
    by (auto simp: nested_def list_all_iff parent_is_fragment_def)
  show ?thesis
    using 1 2 no_command_left [of fragment]
    by (simp add: Let_def fragment_def nested_def)
qed

theorem nested_commands_witness:
  "querySelectorAll_htmx (makeFragment sample_host
     ''<div><htmx trigger=\"inner\"></htmx></div><htmx trigger=\"outer\"></htmx>'') =
     [([0, 0], Element ''htmx'' [(''trigger'', ''inner'')] []),
      ([1], Element ''htmx'' [(''trigger'', ''outer'')] [])]
   \<and> transformResponse sample_host
        ''<div><htmx trigger=\"inner\"></htmx></div><htmx trigger=\"outer\"></htmx>''
        button fresh =
      (''<div></div>'', Resolved,
       \<lparr>events =
          [ConsoleWarn (NestedCommandsDiscarded button),
           TriggerEvent button ''htmx:beforeServerCommand''
             (BeforeCommandDetail (Element ''htmx'' [(''trigger'', ''outer'')] []) button),
           TriggerEvent button ''htmx:afterSwap''
             (CommandDetail (Element ''htmx'' [(''trigger'', ''outer'')] [])),
           TriggerEvent DocumentBody ''outer'' NoDetail,
           TriggerEvent button ''htmx:afterServerCommand''
             (CommandDetail (Element ''htmx'' [(''trigger'', ''outer'')] []))],
        pending = []\<rparr>)"
proof -
  let ?text = "''<div><htmx trigger=\"inner\"></htmx></div><htmx trigger=\"outer\"></htmx>''"
  have f: "makeFragment sample_host ?text =
             [Element ''div'' [] [Element ''htmx'' [(''trigger'', ''inner'')] []],
              Element ''htmx'' [(''trigger'', ''outer'')] []]"
    by (simp add: sample_host_def sample_fragment_def)
  have q: "querySelectorAll_htmx (makeFragment sample_host ?text) =
             [([0, 0], Element ''htmx'' [(''trigger'', ''inner'')] []),
              ([1], Element ''htmx'' [(''trigger'', ''outer'')] [])]"
    unfolding f by (simp add: querySelectorAll_htmx_def)
  have 1: "?text \<noteq> []"
    by simp
  have 2: "querySelectorAll_htmx (makeFragment sample_host ?text) \<noteq> []"
    unfolding q by simp
  have r: "innerHTML sample_host = render"
    by (simp add: sample_host_def)
  show ?thesis
    using nested_commands_are_discarded [OF 1 2, of button fresh] q
    unfolding f Let_def
    by (simp add: parent_is_fragment_def r)
       (simp add: run_defs sample_defs)
qed

section \<open>One command at a time\<close>

lemma process_commands_append:
  "process_commands env contextElt (earlier @ later) s =
     (case process_commands env contextElt earlier s of
        (Resolved, s') \<Rightarrow> process_commands env contextElt later s'
      | (Unsettled, s') \<Rightarrow> (Unsettled, s'))"
proof (induction earlier arbitrary: s)
  case Nil
  then show ?case by simp
next
  case (Cons el earlier)
  then show ?case
    by (cases "processCommandFromElement env el contextElt s")
       (simp split: promise.splits)
qed

text \<open>
  C1, as stated: when the next command begins, the one before has finished, its navigation
  and history effects included. On the sample page the command
  \<^verbatim>\<open><htmx location="/a"></htmx>\<close> is followed by \<^verbatim>\<open><htmx trigger="next"></htmx>\<close>: the second
  command runs from its first to its last event while the history push of the first is still
  a continuation waiting for the request.
\<close>

theorem location_push_outlives_its_command:
  "process_commands sample_host button
     [Element ''htmx'' [(''location'', ''/a'')] [],
      Element ''htmx'' [(''trigger'', ''next'')] []] fresh =
   (Resolved,
    \<lparr>events =
       [TriggerEvent button ''htmx:beforeServerCommand''
          (BeforeCommandDetail (Element ''htmx'' [(''location'', ''/a'')] []) button),
        TriggerEvent button ''htmx:afterSwap''
          (CommandDetail (Element ''htmx'' [(''location'', ''/a'')] [])),
        SaveCurrentPageToHistory,
        AjaxGet (Some (JStr ''/a'')) (JObj []),
        TriggerEvent button ''htmx:afterServerCommand''
          (CommandDetail (Element ''htmx'' [(''location'', ''/a'')] [])),
        TriggerEvent button ''htmx:beforeServerCommand''
          (BeforeCommandDetail (Element ''htmx'' [(''trigger'', ''next'')] []) button),
        TriggerEvent button ''htmx:afterSwap''
          (CommandDetail (Element ''htmx'' [(''trigger'', ''next'')] [])),
        TriggerEvent DocumentBody ''next'' NoDetail,
        TriggerEvent button ''htmx:afterServerCommand''
          (CommandDetail (Element ''htmx'' [(''trigger'', ''next'')] []))],
     pending = [ThenPushUrlIntoHistory (Some (JStr ''/a''))]\<rparr>)"
  by (simp add: run_defs sample_defs)

text \<open>
  C1, amended: the commands are processed in document order, one at a time. The loop hands
  the first command to \<^verbatim>\<open>processCommandFromElement\<close> and goes on with the later commands, in
  the state that command left, only when its promise has been fulfilled (by the end of its
  pipeline, a return, or the error report of its boundary); when a command waits forever the
  run stops there and no later command is ever processed. All effects of a command come
  before all effects of the commands after it, and a command only appends to the effects and
  to the pending continuations. What a command leaves pending is the history push of its
  location request, which the pipeline starts and does not await: a command without a
  location attribute leaves nothing pending.
\<close>

theorem commands_run_one_at_a_time:
  "process_commands env contextElt [] s = (Resolved, s)
   \<and> process_commands env contextElt (commandElt # later) s =
       (case processCommandFromElement env commandElt contextElt s of
          (Resolved, s') \<Rightarrow> process_commands env contextElt later s'
        | (Unsettled, s') \<Rightarrow> (Unsettled, s'))
   \<and> process_commands env contextElt (earlier @ later) s =
       (case process_commands env contextElt earlier s of
          (Resolved, s') \<Rightarrow> process_commands env contextElt later s'
        | (Unsettled, s') \<Rightarrow> (Unsettled, s'))
   \<and> (fst (processCommandFromElement env commandElt contextElt s) = Unsettled \<longrightarrow>
        process_commands env contextElt (commandElt # later) s =
          processCommandFromElement env commandElt contextElt s)
   \<and> (fst (process_commands env contextElt earlier s) = Unsettled \<longrightarrow>
        process_commands env contextElt (earlier @ later) s =
          process_commands env contextElt earlier s)
   \<and> prefix (events s) (events (snd (process_commands env contextElt earlier s)))
   \<and> prefix (events s) (events (snd (processCommandFromElement env commandElt contextElt s)))
   \<and> prefix (events (snd (processCommandFromElement env commandElt contextElt s)))
        (events (snd (process_commands env contextElt (commandElt # later) s)))
   \<and> prefix (pending s) (pending (snd (processCommandFromElement env commandElt contextElt s)))
   \<and> (getAttribute commandElt ''location'' = None \<longrightarrow>
        pending (snd (processCommandFromElement env commandElt contextElt s)) = pending s)"
proof -
  obtain r s1 where one: "processCommandFromElement env commandElt contextElt s = (r, s1)"
    by (cases "processCommandFromElement env commandElt contextElt s")
  obtain r' s2 where run: "process_commands env contextElt earlier s = (r', s2)"
    by (cases "process_commands env contextElt earlier s")
  have step: "process_commands env contextElt (commandElt # later) s =
       (case processCommandFromElement env commandElt contextElt s of
          (Resolved, s') \<Rightarrow> process_commands env contextElt later s'
        | (Unsettled, s') \<Rightarrow> (Unsettled, s'))"
    by simp
  have stall1: "fst (processCommandFromElement env commandElt contextElt s) = Unsettled \<longrightarrow>
        process_commands env contextElt (commandElt # later) s =
          processCommandFromElement env commandElt contextElt s"
    using one by simp
  have stall: "fst (process_commands env contextElt earlier s) = Unsettled \<longrightarrow>
        process_commands env contextElt (earlier @ later) s =
          process_commands env contextElt earlier s"
    using run by (simp add: process_commands_append)
  have after: "prefix (events (snd (processCommandFromElement env commandElt contextElt s)))
        (events (snd (process_commands env contextElt (commandElt # later) s)))"
    using one adds_prefix [OF adds_process_commands [of s1 env contextElt later]]
    by (cases r) simp_all
  show ?thesis
    using step stall1 stall after
      process_commands_append [of env contextElt earlier later s]
      adds_prefix [OF adds_process_commands [of s env contextElt earlier]]
      adds_prefix [OF adds_processCommandFromElement [of s env commandElt contextElt]]
      adds_no_deferred [OF adds_processCommandFromElement_without_location
                             [of commandElt s env contextElt]]
    by simp
qed

theorem commands_run_one_at_a_time_witness:
  "getAttribute (Element ''htmx'' [(''push-url'', ''/p'')] []) ''location'' = None
   \<and> processCommandFromElement sample_host
        (Element ''htmx'' [(''push-url'', ''/p'')] []) button fresh =
      (Resolved,
       \<lparr>events =
          [TriggerEvent button ''htmx:beforeServerCommand''
             (BeforeCommandDetail (Element ''htmx'' [(''push-url'', ''/p'')] []) button),
           TriggerEvent button ''htmx:afterSwap''
             (CommandDetail (Element ''htmx'' [(''push-url'', ''/p'')] [])),
           SaveCurrentPageToHistory,
           PushUrlIntoHistory (Some (JStr ''/p'')),
           TriggerEvent button ''htmx:afterServerCommand''
             (CommandDetail (Element ''htmx'' [(''push-url'', ''/p'')] []))],
        pending = []\<rparr>)
   \<and> process_commands sample_host button
        [Element ''htmx'' [(''push-url'', ''/p'')] [],
         Element ''htmx'' [(''trigger'', ''next'')] []] fresh =
      process_commands sample_host button [Element ''htmx'' [(''trigger'', ''next'')] []]
        \<lparr>events =
           [TriggerEvent button ''htmx:beforeServerCommand''
              (BeforeCommandDetail (Element ''htmx'' [(''push-url'', ''/p'')] []) button),
            TriggerEvent button ''htmx:afterSwap''
              (CommandDetail (Element ''htmx'' [(''push-url'', ''/p'')] [])),
            SaveCurrentPageToHistory,
            PushUrlIntoHistory (Some (JStr ''/p'')),
            TriggerEvent button ''htmx:afterServerCommand''
              (CommandDetail (Element ''htmx'' [(''push-url'', ''/p'')] []))],
         pending = []\<rparr>
   \<and> fst (processCommandFromElement failing_delayed_host
             (Element ''htmx'' [(''target'', ''#t'')] [TextNode ''hi'']) button fresh) = Unsettled
   \<and> process_commands failing_delayed_host button
        [Element ''htmx'' [(''target'', ''#t'')] [TextNode ''hi''],
         Element ''htmx'' [(''trigger'', ''next'')] []] fresh =
      (Unsettled,
       \<lparr>events =
          [TriggerEvent button ''htmx:beforeServerCommand''
             (BeforeCommandDetail (Element ''htmx'' [(''target'', ''#t'')] [TextNode ''hi''])
                button),
           TriggerEvent (LiveElement 1) ''htmx:beforeSwap''
             (BeforeSwapDetail
                \<lparr>elt = button, target = LiveElement 1,
                 swapSpec = \<lparr>swapStyle = ''outerHTML'', swapDelay = 100, settleDelay = 0,
                              transition = None\<rparr>,
                 serverResponse = ''hi'', shouldSwap = True, fromServerCommand = True\<rparr>)],
        pending = []\<rparr>)"
proof -
  let ?m = "Element ''htmx'' [(''push-url'', ''/p'')] []"
  let ?n = "Element ''htmx'' [(''trigger'', ''next'')] []"
  let ?w = "Element ''htmx'' [(''target'', ''#t'')] [TextNode ''hi'']"
  have 1: "processCommandFromElement sample_host ?m button fresh =
     (Resolved,
      \<lparr>events =
         [TriggerEvent button ''htmx:beforeServerCommand'' (BeforeCommandDetail ?m button),
          TriggerEvent button ''htmx:afterSwap'' (CommandDetail ?m),
          SaveCurrentPageToHistory,
          PushUrlIntoHistory (Some (JStr ''/p'')),
          TriggerEvent button ''htmx:afterServerCommand'' (CommandDetail ?m)],
       pending = []\<rparr>)"
    by (simp add: run_defs sample_defs)
  have 2: "getAttribute ?m ''location'' = None"
    by (simp add: getAttribute_def)
  have 3: "processCommandFromElement failing_delayed_host ?w button fresh =
     (Unsettled,
      \<lparr>events =
         [TriggerEvent button ''htmx:beforeServerCommand'' (BeforeCommandDetail ?w button),
          TriggerEvent (LiveElement 1) ''htmx:beforeSwap''
            (BeforeSwapDetail
               \<lparr>elt = button, target = LiveElement 1,
                swapSpec = \<lparr>swapStyle = ''outerHTML'', swapDelay = 100, settleDelay = 0,
                             transition = None\<rparr>,
                serverResponse = ''hi'', shouldSwap = True, fromServerCommand = True\<rparr>)],
       pending = []\<rparr>)"
    by (simp add: run_defs sample_defs failing_delayed_host_def)
  have a: "process_commands sample_host button [?m, ?n] fresh =
             process_commands sample_host button [?n] (snd (processCommandFromElement sample_host ?m button fresh))"
    using commands_run_one_at_a_time
            [where env = sample_host and contextElt = button and s = fresh
               and commandElt = ?m and later = "[?n]" and earlier = "[]"]
    unfolding 1 by simp
  have b: "process_commands failing_delayed_host button [?w, ?n] fresh =
             processCommandFromElement failing_delayed_host ?w button fresh"
    using commands_run_one_at_a_time
            [where env = failing_delayed_host and contextElt = button and s = fresh
               and commandElt = ?w and later = "[?n]" and earlier = "[]"]
    unfolding 3 by simp
  show ?thesis
    using a b unfolding 1 3 using 2 by simp
qed

section \<open>Trigger values that dispatch without an exception\<close>

text \<open>
  Outside the defect shown for C7 the dispatcher does what is claimed for it: a value that
  does not parse is fired piece by piece as bare events on the document body, and a value
  that parses as an object fires one event per key, in order, when neither a target lookup
  nor the event call of the host throws.
\<close>

lemma fired_events_append: "fired_events (es @ es') = fired_events es @ fired_events es'"
  by (induction es rule: fired_events.induct) simp_all

lemma fallback_triggers_events:
  "events (fallback_triggers env v s) =
     events s @ map (\<lambda>name. TriggerEvent DocumentBody (trim name) NoDetail) (split_comma v)"
proof -
  have "events (foldl (\<lambda>s' eventName. snd (triggerEvent env DocumentBody (trim eventName) NoDetail s'))
                  s names) =
          events s @ map (\<lambda>name. TriggerEvent DocumentBody (trim name) NoDetail) names" for names
    by (induction names arbitrary: s) (simp_all add: triggerEvent_def emit_def)
  then show ?thesis
    by (simp add: fallback_triggers_def)
qed

lemma comma_list_fires_bare_events:
  assumes "jsonParse env v = None"
  shows "new_effects s (handleTriggerAttribute env v s) =
           map (\<lambda>name. TriggerEvent DocumentBody (trim name) NoDetail) (split_comma v)"
  using assms by (simp add: handleTriggerAttribute_def new_effects_def fallback_triggers_events)

lemma trigger_target_fires_nothing:
  assumes "trigger_target env d s = Inr (tgt, d', s')"
  shows "\<exists>ws. events s' = events s @ ws \<and> fired_events ws = []"
proof -
  have "s' = s \<or> (\<exists>t. s' = emit (ConsoleWarn (TriggerTargetNotFound t)) s)"
    using assms
    by (auto simp: trigger_target_def split: json.splits option.splits if_splits sum.splits)
  then show ?thesis
  proof
    assume "s' = s"
    then show ?thesis by simp
  next
    assume "\<exists>t. s' = emit (ConsoleWarn (TriggerTargetNotFound t)) s"
    then obtain t where "s' = emit (ConsoleWarn (TriggerTargetNotFound t)) s" ..
    then have "events s' = events s @ [ConsoleWarn (TriggerTargetNotFound t)]
               \<and> fired_events [ConsoleWarn (TriggerTargetNotFound t)] = []"
      by (simp add: emit_def)
    then show ?thesis by blast
  qed
qed

lemma dispatch_triggers_fires_each_key:
  assumes "fst (dispatch_triggers env props s) = None"
  shows "\<exists>es. events (snd (dispatch_triggers env props s)) = events s @ es
              \<and> map (fst \<circ> snd) (fired_events es) = map fst props"
  using assms
proof (induction props arbitrary: s)
  case Nil
  then show ?case by simp
next
  case (Cons kv props)
  obtain k d where kv: "kv = (k, d)"
    by (cases kv)
  show ?case
  proof (cases "trigger_target env d s")
    case (Inl e)
    then show ?thesis
      using Cons.prems kv by simp
  next
    case (Inr r)
    obtain tgt d' s' where r: "r = (tgt, d', s')"
      by (cases r)
    define s2 where "s2 = snd (triggerEvent env tgt k (JsonDetail d') s')"
    have object: "\<not> primitive d'"
      using Cons.prems kv Inr r by (auto split: if_splits)
    have step: "dispatch_triggers env (kv # props) s = dispatch_triggers env props s2"
      using kv Inr r object by (simp add: s2_def)
    obtain ws where ws: "events s' = events s @ ws" "fired_events ws = []"
      using trigger_target_fires_nothing Inr r by blast
    have e2: "events s2 = events s @ ws @ [TriggerEvent tgt k (JsonDetail d')]"
      by (simp add: s2_def triggerEvent_def emit_def ws)
    have "fst (dispatch_triggers env props s2) = None"
      using Cons.prems step by simp
    then obtain es where es: "events (snd (dispatch_triggers env props s2)) = events s2 @ es"
      "map (fst \<circ> snd) (fired_events es) = map fst props"
      using Cons.IH [of s2] by blast
    have "events (snd (dispatch_triggers env (kv # props) s)) =
            events s @ (ws @ [TriggerEvent tgt k (JsonDetail d')] @ es)"
      by (simp add: step es e2)
    moreover have "map (fst \<circ> snd) (fired_events (ws @ [TriggerEvent tgt k (JsonDetail d')] @ es)) =
                     map fst (kv # props)"
      by (simp add: fired_events_append ws es kv)
    ultimately show ?thesis by blast
  qed
qed

lemma json_object_fires_one_event_per_key:
  assumes "jsonParse env v = Some (JObj props)"
    and "fst (dispatch_triggers env props s) = None"
  shows "map (fst \<circ> snd) (fired_events (new_effects s (handleTriggerAttribute env v s))) =
           map fst props"
proof -
  obtain s' where d: "dispatch_triggers env props s = (None, s')"
    using assms(2) by (cases "dispatch_triggers env props s") simp
  have h: "handleTriggerAttribute env v s = s'"
    using assms(1) d by (simp add: handleTriggerAttribute_def)
  have "\<exists>es. events s' = events s @ es \<and> map (fst \<circ> snd) (fired_events es) = map fst props"
    using dispatch_triggers_fires_each_key [OF assms(2)] unfolding d by simp
  then obtain es where "events s' = events s @ es"
    "map (fst \<circ> snd) (fired_events es) = map fst props"
    by blast
  then show ?thesis
    by (simp add: h new_effects_def)
qed

lemma trigger_examples:
  "handleTriggerAttribute sample_host ''a,b'' fresh =
     \<lparr>events = [TriggerEvent DocumentBody ''a'' NoDetail, TriggerEvent DocumentBody ''b'' NoDetail],
      pending = []\<rparr>"
  "handleTriggerAttribute sample_host ''{\"a\":{\"x\":1}}'' fresh =
     \<lparr>events = [TriggerEvent DocumentBody ''a'' (JsonDetail (JObj [(''x'', JNum 1)]))],
      pending = []\<rparr>"
  by (simp_all add: run_defs sample_defs)

end
